theory Spec2Isabelle
  imports Main "HOL-Library.Word" "HOL-Library.Multiset"
begin

section \<open>Common values\<close>

text \<open>
  The error codes the four source files name, and \<open>OtherError\<close> for every other entry of
  the repository's error-code table (the table itself is not among the source files).
  An \<open>ErrorStack\<close> is modelled by the code it carries; \<open>RET_OK\<close> is \<open>kErrorCodeOk\<close>.
  Member names are written without the trailing underscore of the source.
\<close>

datatype ErrorCode =
    kErrorCodeOk
  | ERROR_CODE_DEPEDENT_MODULE_UNAVAILABLE_INIT
  | ERROR_CODE_DEPEDENT_MODULE_UNAVAILABLE_UNINIT
  | ERROR_CODE_MEMORY_NUMA_UNAVAILABLE
  | ERROR_CODE_MEMORY_PAGE_POOL_TOO_SMALL
  | ERROR_CODE_OUTOFMEMORY
  | ERROR_CODE_XCT_RACE_ABORT
  | OtherError nat

definition is_error :: "ErrorCode \<Rightarrow> bool" where
  "is_error e = (e \<noteq> kErrorCodeOk)"

text \<open>
  How a call ends. \<open>Returned\<close> is a normal return. \<open>AssertionFailed\<close> is a failed
  \<open>assert\<close>/\<open>ASSERT_ND\<close>, \<open>Fatal e\<close> is \<open>COERCE_ERROR\<close> on the error \<open>e\<close>: both stop the
  process. \<open>Thrown\<close> is a C++ exception leaving the function, \<open>Blocked\<close> a call that
  waits for another thread, \<open>OutOfBounds\<close> an access past the end of a fixed array,
  \<open>DivisionByZero\<close> a remainder by zero.
\<close>

datatype future_errc =
  promise_already_satisfied | future_already_retrieved | no_state | broken_promise

datatype 'a outcome =
    Returned 'a
  | AssertionFailed
  | Fatal ErrorCode
  | Thrown future_errc
  | Blocked
  | OutOfBounds
  | DivisionByZero

section \<open>Engine memory (engine\_memory.cpp)\<close>

record ThreadOptions =
  group_count :: nat
  thread_count_per_group :: nat

record MemoryOptions =
  page_pool_size_mb_per_node :: nat
  private_page_pool_initial_grab :: nat

record EngineOptions =
  thread_opts :: ThreadOptions
  memory_opts :: MemoryOptions

record PageResolver =
  r_base :: nat
  r_begin :: nat
  r_end :: nat

record GlobalPageResolver =
  bases :: "nat list"
  numa_node_count :: nat
  g_begin :: nat
  g_end :: nat

record NumaNodeMemory =
  numa_node :: nat
  resolver :: PageResolver

record EngineMemory =
  node_memories :: "NumaNodeMemory list"
  global_page_resolver :: GlobalPageResolver

text \<open>
  What \<open>EngineMemory::initialize_once\<close> reads from outside the file:
  the debugging module's state, the return value of \<open>numa_available()\<close>, the engine
  options, the constant \<open>storage::PAGE_SIZE\<close>, and what \<open>NumaNodeMemory::initialize\<close>
  returns for each node together with the resolver of the node's page pool.
\<close>

record Environment =
  debug_initialized :: bool
  numa_available :: int
  options :: EngineOptions
  PAGE_SIZE :: nat
  node_initialize :: "nat \<Rightarrow> ErrorCode \<times> PageResolver"

text \<open>
  Modelled from the spec: the macro \<open>ASSERT_ND\<close>, which \<open>EngineMemory::initialize_once\<close>
  uses at lines 24, 50 and 51 and whose definition is not among the source files. The
  spec says of the condition checked at lines 50 and 51 that it ``is enforced at
  engine-memory initialization and, if violated, is a fatal startup error'', and of the
  loop that ``on subsequent nodes'' it must ``assert equality'': a condition that is
  false stops the process where the macro stands, a condition that is true lets the
  function go on with the statements that follow.
\<close>

definition ASSERT_ND :: "bool \<Rightarrow> 'a outcome \<Rightarrow> 'a outcome" where
  "ASSERT_ND condition following = (if condition then following else AssertionFailed)"

text \<open>
  Lines 28 to 32. The three quantities are \<open>uint64_t\<close>: every product and the shift are
  taken modulo \<open>2 ^ 64\<close>. The declarations of the option fields are not among the
  source files; the fields are natural numbers here, and the product of the two thread
  counts enters the 64 bits as it is.
\<close>

definition total_threads :: "EngineOptions \<Rightarrow> nat" where
  "total_threads opts =
     (group_count (thread_opts opts) * thread_count_per_group (thread_opts opts)) mod 2 ^ 64"

definition minimal_page_pool :: "Environment \<Rightarrow> nat" where
  "minimal_page_pool env =
     ((total_threads (options env)
         * private_page_pool_initial_grab (memory_opts (options env))) mod 2 ^ 64
        * PAGE_SIZE env) mod 2 ^ 64"

definition page_pool_bytes :: "EngineOptions \<Rightarrow> nat" where
  "page_pool_bytes opts =
     (((page_pool_size_mb_per_node (memory_opts opts) mod 2 ^ 64)
         * group_count (thread_opts opts)) mod 2 ^ 64 * 2 ^ 20) mod 2 ^ 64"

definition page_pool_too_small :: "Environment \<Rightarrow> bool" where
  "page_pool_too_small env = (page_pool_bytes (options env) < minimal_page_pool env)"

text \<open>
  The local variables of the loop of lines 36 to 53: the node memories pushed so far, the
  array \<open>bases[256]\<close>, and the two offsets.
\<close>

record init_locals =
  l_node_memories :: "NumaNodeMemory list"
  l_bases :: "nat list"
  page_offset_begin :: nat
  page_offset_end :: nat

fun init_nodes :: "Environment \<Rightarrow> nat list \<Rightarrow> init_locals \<Rightarrow> (ErrorCode \<times> init_locals) outcome" where
  "init_nodes env [] st = Returned (kErrorCodeOk, st)"
| "init_nodes env (node # rest) st =
     (let (err, r) = node_initialize env node;
          st1 = st\<lparr>l_node_memories :=
                     l_node_memories st @ [\<lparr>numa_node = node, resolver = r\<rparr>]\<rparr>
      in if is_error err then Returned (err, st1)
         else if length (l_bases st1) \<le> node then OutOfBounds
         else
           (let st2 = st1\<lparr>l_bases := (l_bases st1)[node := r_base r]\<rparr>
            in if node = 0
               then init_nodes env rest
                      (st2\<lparr>page_offset_begin := r_begin r, page_offset_end := r_end r\<rparr>)
               else ASSERT_ND (page_offset_begin st2 = r_begin r)
                      (ASSERT_ND (page_offset_end st2 = r_end r)
                         (init_nodes env rest st2))))"

text \<open>Lines 36 to 56: the loop over the nodes and the global page resolver.\<close>

definition construct_node_memories :: "Environment \<Rightarrow> EngineMemory \<Rightarrow> (ErrorCode \<times> EngineMemory) outcome" where
  "construct_node_memories env em =
     (let numa_nodes = group_count (thread_opts (options env));
          st0 = \<lparr>l_node_memories = node_memories em, l_bases = replicate 256 0,
                 page_offset_begin = 0, page_offset_end = 0\<rparr>
      in case init_nodes env [0..<numa_nodes] st0 of
           Returned (err, st) \<Rightarrow>
             if is_error err
             then Returned (err, em\<lparr>node_memories := l_node_memories st\<rparr>)
             else Returned (kErrorCodeOk,
                    \<lparr>node_memories = l_node_memories st,
                     global_page_resolver =
                       \<lparr>bases = take numa_nodes (l_bases st),
                        numa_node_count = numa_nodes,
                        g_begin = page_offset_begin st,
                        g_end = page_offset_end st\<rparr>\<rparr>)
         | AssertionFailed \<Rightarrow> AssertionFailed
         | Fatal e \<Rightarrow> Fatal e
         | Thrown x \<Rightarrow> Thrown x
         | Blocked \<Rightarrow> Blocked
         | OutOfBounds \<Rightarrow> OutOfBounds
         | DivisionByZero \<Rightarrow> DivisionByZero)"

definition initialize_once :: "Environment \<Rightarrow> EngineMemory \<Rightarrow> (ErrorCode \<times> EngineMemory) outcome" where
  "initialize_once env em =
     (if \<not> debug_initialized env
      then Returned (ERROR_CODE_DEPEDENT_MODULE_UNAVAILABLE_INIT, em)
      else if numa_available env < 0
      then Returned (ERROR_CODE_MEMORY_NUMA_UNAVAILABLE, em)
      else ASSERT_ND (node_memories em = [])
             (if page_pool_too_small env
              then Returned (ERROR_CODE_MEMORY_PAGE_POOL_TOO_SMALL, em)
              else construct_node_memories env em))"

text \<open>The byte counts the sizing check is about, without wrap-around.\<close>

definition pool_bytes_exact :: "EngineOptions \<Rightarrow> nat" where
  "pool_bytes_exact opts =
     page_pool_size_mb_per_node (memory_opts opts) * 2 ^ 20 * group_count (thread_opts opts)"

definition minimal_exact :: "Environment \<Rightarrow> nat" where
  "minimal_exact env =
     (group_count (thread_opts (options env)) * thread_count_per_group (thread_opts (options env)))
       * private_page_pool_initial_grab (memory_opts (options env)) * PAGE_SIZE env"

definition fits_uint64 :: "Environment \<Rightarrow> bool" where
  "fits_uint64 env = (pool_bytes_exact (options env) < 2 ^ 64 \<and> minimal_exact env < 2 ^ 64)"


text \<open>
  Concrete inputs: two nodes of four threads, 128 pages of 4096 bytes grabbed by each
  thread, so that the smallest admissible pool is 4 MB in total, 2 MB per node. Every
  node memory initializes; \<open>node_end\<close> gives the end offset of each node's resolver.
\<close>

definition tiny_env :: "nat \<Rightarrow> (nat \<Rightarrow> nat) \<Rightarrow> Environment" where
  "tiny_env mb node_end =
     \<lparr>debug_initialized = True, numa_available = 0,
      options = \<lparr>thread_opts = \<lparr>group_count = 2, thread_count_per_group = 4\<rparr>,
                 memory_opts = \<lparr>page_pool_size_mb_per_node = mb,
                                private_page_pool_initial_grab = 128\<rparr>\<rparr>,
      PAGE_SIZE = 4096,
      node_initialize =
        (\<lambda>node. (kErrorCodeOk, \<lparr>r_base = node * 1000, r_begin = 1, r_end = node_end node\<rparr>))\<rparr>"

definition fresh_engine_memory :: EngineMemory where
  "fresh_engine_memory =
     \<lparr>node_memories = [],
      global_page_resolver = \<lparr>bases = [], numa_node_count = 0, g_begin = 0, g_end = 0\<rparr>\<rparr>"

section \<open>Worker thread (thread\_pimpl.cpp)\<close>

text \<open>
  \<open>std::promise\<close> and its future share a state that lives outside both objects. The
  shared states are kept in a store, a promise holds the index of its state and whether
  its future was already taken. A state is not ready, holds a value, or holds the
  \<open>broken_promise\<close> error its promise left when it was destroyed or assigned over
  before a value was set. A new promise gets a state at a new index.
\<close>

datatype 'a shared_state = NotReady | Ready 'a | BrokenPromise

record promise =
  state_id :: nat
  future_retrieved :: bool

definition promise_new :: "'a shared_state list \<Rightarrow> promise \<times> 'a shared_state list" where
  "promise_new h = (\<lparr>state_id = length h, future_retrieved = False\<rparr>, h @ [NotReady])"

definition promise_abandon :: "promise \<Rightarrow> 'a shared_state list \<Rightarrow> 'a shared_state list" where
  "promise_abandon p h =
     (if state_id p < length h \<and> h ! state_id p = NotReady
      then h[state_id p := BrokenPromise] else h)"

text \<open>\<open>p = std::promise<T>()\<close>: move assignment abandons the old state of \<open>p\<close>.\<close>

definition promise_assign_new :: "promise \<Rightarrow> 'a shared_state list \<Rightarrow> promise \<times> 'a shared_state list" where
  "promise_assign_new p h = promise_new (promise_abandon p h)"

definition promise_set_value ::
    "promise \<Rightarrow> 'a \<Rightarrow> 'a shared_state list \<Rightarrow> future_errc + 'a shared_state list" where
  "promise_set_value p v h =
     (if length h \<le> state_id p then Inl no_state
      else case h ! state_id p of
             NotReady \<Rightarrow> Inr (h[state_id p := Ready v])
           | Ready _ \<Rightarrow> Inl promise_already_satisfied
           | BrokenPromise \<Rightarrow> Inl promise_already_satisfied)"

definition promise_get_future :: "promise \<Rightarrow> future_errc + (nat \<times> promise)" where
  "promise_get_future p =
     (if future_retrieved p then Inl future_already_retrieved
      else Inr (state_id p, p\<lparr>future_retrieved := True\<rparr>))"

definition future_get :: "nat \<Rightarrow> 'a shared_state list \<Rightarrow> 'a outcome" where
  "future_get fut h =
     (if length h \<le> fut then Thrown no_state
      else case h ! fut of
             NotReady \<Rightarrow> Blocked
           | Ready v \<Rightarrow> Returned v
           | BrokenPromise \<Rightarrow> Thrown broken_promise)"

definition atomic_compare_exchange_strong :: "bool \<Rightarrow> bool \<Rightarrow> bool \<Rightarrow> bool \<times> bool" where
  "atomic_compare_exchange_strong obj expected desired =
     (if obj = expected then (True, desired) else (False, obj))"

text \<open>
  An \<open>ImpersonateTask*\<close> is \<open>None\<close> for \<open>nullptr\<close> and \<open>Some t\<close> for the task \<open>t\<close>.
  \<open>worker_pc\<close> is where the worker's OS thread stands: not spawned, spawned and not yet
  run, at the top of the loop (line 43), inside \<open>task_future.get()\<close> (line 45) on the
  future of the given shared state, or past the end of \<open>handle_tasks\<close>.
\<close>

type_synonym task_ptr = "nat option"

datatype worker_pc = NoThread | AtStart | AtLoopTop | AtGet nat | Finished

record ThreadPimpl =
  thread_id :: nat
  holder :: nat
  core_memory :: "nat option"
  raw_thread :: "nat option"
  exitted :: bool
  impersonated :: bool
  impersonated_task :: promise
  impersonated_task_result :: promise

record World =
  pimpl :: ThreadPimpl
  task_states :: "task_ptr shared_state list"
  result_states :: "ErrorCode shared_state list"
  worker :: worker_pc

record ImpersonateSession =
  thread :: "nat option"
  result_future :: "nat option"
  task :: task_ptr
  invalid_cause :: ErrorCode

text \<open>
  What the file takes from outside: what \<open>functor->run(holder_)\<close> returns for each
  task, \<open>decompose_numa_node\<close>, \<open>get_core_memory\<close>, the pointer \<open>new std::thread\<close>
  gives, and whether \<open>assert\<close> is compiled in.
\<close>

record ThreadEnv =
  task_run :: "nat \<Rightarrow> nat \<Rightarrow> ErrorCode"
  decompose_numa_node :: "nat \<Rightarrow> nat"
  get_core_memory :: "nat \<Rightarrow> nat option"
  new_thread :: "nat option"
  assert_enabled :: bool

text \<open>
  \<open>ThreadPimpl::try_impersonate\<close>, lines 64 to 80. The result is how the call ends
  together with the world and the session it leaves behind: an exception that leaves
  the function after the compare-and-set undoes none of the statements before it, so
  the flag, the new outbox and the fields of the session written so far stay as they
  are.
\<close>

definition try_impersonate ::
    "World \<Rightarrow> ImpersonateSession \<Rightarrow> bool outcome \<times> World \<times> ImpersonateSession" where
  "try_impersonate w session =
     (let p = pimpl w; cas = atomic_compare_exchange_strong (impersonated p) False True
      in if \<not> impersonated p \<and> fst cas
         then
           (let p1 = p\<lparr>impersonated := snd cas\<rparr>;
                (np, rs) = promise_assign_new (impersonated_task_result p1) (result_states w);
                w1 = w\<lparr>pimpl := p1\<lparr>impersonated_task_result := np\<rparr>, result_states := rs\<rparr>;
                session1 = session\<lparr>thread := Some (holder p1)\<rparr>
            in case promise_get_future np of
                 Inl e \<Rightarrow> (Thrown e, w1, session1)
               | Inr (fut, np') \<Rightarrow>
                   (let w2 = w1\<lparr>pimpl := (pimpl w1)\<lparr>impersonated_task_result := np'\<rparr>\<rparr>;
                        session2 = session1\<lparr>result_future := Some fut\<rparr>
                    in case promise_set_value (impersonated_task (pimpl w2)) (task session2)
                              (task_states w2) of
                         Inl e \<Rightarrow> (Thrown e, w2, session2)
                       | Inr ts \<Rightarrow> (Returned True, w2\<lparr>task_states := ts\<rparr>, session2)))
         else (Returned False, w, session))"

text \<open>
  The statements of \<open>handle_tasks\<close> that act on the worker, in program order. A trace
  pairs each with the world right after it.
\<close>

datatype event =
    RunOnNode nat
  | GetFuture
  | TaskReceived task_ptr
  | ResetInbox
  | RunTask nat ErrorCode
  | SetResult ErrorCode
  | ClearImpersonated
  | Break
  | SetExitted
  | ReleaseFence

type_synonym trace = "(event \<times> World) list"

definition prepend :: "trace \<Rightarrow> (trace \<times> World) outcome \<Rightarrow> (trace \<times> World) outcome" where
  "prepend tr r =
     (case r of
        Returned (tr', w) \<Rightarrow> Returned (tr @ tr', w)
      | AssertionFailed \<Rightarrow> AssertionFailed
      | Fatal e \<Rightarrow> Fatal e
      | Thrown x \<Rightarrow> Thrown x
      | Blocked \<Rightarrow> Blocked
      | OutOfBounds \<Rightarrow> OutOfBounds
      | DivisionByZero \<Rightarrow> DivisionByZero)"

definition inbox_ready :: "nat \<Rightarrow> World \<Rightarrow> nat" where
  "inbox_ready sid w =
     (if sid < length (task_states w) \<and> task_states w ! sid \<noteq> NotReady then 1 else 0)"

text \<open>
  \<open>handle_tasks env pc w\<close> runs the worker's thread from \<open>pc\<close> until it waits in
  \<open>task_future.get()\<close> for a value nobody has set yet, or until the function ends. The
  world it returns records where the thread stands.
\<close>

function handle_tasks :: "ThreadEnv \<Rightarrow> worker_pc \<Rightarrow> World \<Rightarrow> (trace \<times> World) outcome" where
  "handle_tasks env NoThread w = Returned ([], w)"
| "handle_tasks env Finished w = Returned ([], w)"
| "handle_tasks env AtStart w =
     (let numa_node = decompose_numa_node env (thread_id (pimpl w))
      in prepend [(RunOnNode numa_node, w)] (handle_tasks env AtLoopTop w))"
| "handle_tasks env AtLoopTop w =
     (case promise_get_future (impersonated_task (pimpl w)) of
        Inl e \<Rightarrow> Thrown e
      | Inr (fut, ip) \<Rightarrow>
          (let w1 = w\<lparr>pimpl := (pimpl w)\<lparr>impersonated_task := ip\<rparr>\<rparr>
           in prepend [(GetFuture, w1)] (handle_tasks env (AtGet fut) w1)))"
| "handle_tasks env (AtGet fut) w =
     (case future_get fut (task_states w) of
        Blocked \<Rightarrow> Returned ([], w\<lparr>worker := AtGet fut\<rparr>)
      | Returned functor \<Rightarrow>
          (let (np, ts) = promise_assign_new (impersonated_task (pimpl w)) (task_states w);
               w2 = w\<lparr>pimpl := (pimpl w)\<lparr>impersonated_task := np\<rparr>, task_states := ts\<rparr>
           in case functor of
                Some t \<Rightarrow>
                  if assert_enabled env \<and> \<not> impersonated (pimpl w2) then AssertionFailed
                  else
                    (let result = task_run env t (holder (pimpl w2))
                     in case promise_set_value (impersonated_task_result (pimpl w2)) result
                               (result_states w2) of
                          Inl e \<Rightarrow> Thrown e
                        | Inr rs \<Rightarrow>
                            (let w3 = w2\<lparr>result_states := rs\<rparr>;
                                 w4 = w3\<lparr>pimpl := (pimpl w3)\<lparr>impersonated := False\<rparr>\<rparr>
                             in prepend
                                  [(TaskReceived functor, w), (ResetInbox, w2),
                                   (RunTask t result, w2), (SetResult result, w3),
                                   (ClearImpersonated, w4)]
                                  (handle_tasks env AtLoopTop w4)))
              | None \<Rightarrow>
                  (let w3 = w2\<lparr>pimpl := (pimpl w2)\<lparr>exitted := True\<rparr>\<rparr>;
                       w4 = w3\<lparr>worker := Finished\<rparr>
                   in Returned
                        ([(TaskReceived functor, w), (ResetInbox, w2), (Break, w2),
                          (SetExitted, w3), (ReleaseFence, w4)], w4)))
      | AssertionFailed \<Rightarrow> AssertionFailed
      | Fatal e \<Rightarrow> Fatal e
      | Thrown x \<Rightarrow> Thrown x
      | OutOfBounds \<Rightarrow> OutOfBounds
      | DivisionByZero \<Rightarrow> DivisionByZero)"
  by pat_completeness auto

termination
  apply (relation "measure (\<lambda>(env, pc, w).
           case pc of AtStart \<Rightarrow> 2 * inbox_ready (state_id (impersonated_task (pimpl w))) w + 2
                    | AtLoopTop \<Rightarrow> 2 * inbox_ready (state_id (impersonated_task (pimpl w))) w + 1
                    | AtGet fut \<Rightarrow> 2 * inbox_ready fut w
                    | _ \<Rightarrow> 0)")
     apply simp
    apply simp
   apply (auto simp: promise_get_future_def inbox_ready_def split: if_splits)[1]
  apply (auto simp: future_get_def inbox_ready_def promise_assign_new_def promise_new_def
      promise_abandon_def promise_set_value_def nth_append
      split: if_splits shared_state.splits)
  done

text \<open>
  \<open>ThreadPimpl::initialize_once\<close>. The spawned thread runs beside the caller; here it
  runs at once, up to its first wait.
\<close>

definition ThreadPimpl_initialize_once :: "ThreadEnv \<Rightarrow> World \<Rightarrow> (ErrorCode \<times> World) outcome" where
  "ThreadPimpl_initialize_once env w =
     (let p1 = (pimpl w)\<lparr>core_memory := get_core_memory env (thread_id (pimpl w))\<rparr>;
          p2 = p1\<lparr>raw_thread := new_thread env\<rparr>
      in if raw_thread p2 = None
         then Returned (ERROR_CODE_OUTOFMEMORY, w\<lparr>pimpl := p2\<rparr>)
         else case handle_tasks env AtStart (w\<lparr>pimpl := p2, worker := AtStart\<rparr>) of
                Returned (tr, w') \<Rightarrow> Returned (kErrorCodeOk, w')
              | AssertionFailed \<Rightarrow> AssertionFailed
              | Fatal e \<Rightarrow> Fatal e
              | Thrown x \<Rightarrow> Thrown x
              | Blocked \<Rightarrow> Blocked
              | OutOfBounds \<Rightarrow> OutOfBounds
              | DivisionByZero \<Rightarrow> DivisionByZero)"

text \<open>
  \<open>ThreadPimpl::uninitialize_once\<close>. \<open>join\<close> lets the worker's thread run from where it
  stands; it returns once the thread has left \<open>handle_tasks\<close> and waits for ever
  (\<open>Blocked\<close>) when the thread ends up waiting for a task again.
\<close>

definition ThreadPimpl_uninitialize_once :: "ThreadEnv \<Rightarrow> World \<Rightarrow> (ErrorCode \<times> World) outcome" where
  "ThreadPimpl_uninitialize_once env w =
     (if raw_thread (pimpl w) \<noteq> None
      then
        (case promise_set_value (impersonated_task (pimpl w)) None (task_states w) of
           Inl e \<Rightarrow> Thrown e
         | Inr ts \<Rightarrow>
             (let w1 = w\<lparr>task_states := ts\<rparr>
              in case handle_tasks env (worker w1) w1 of
                   Returned (tr, w2) \<Rightarrow>
                     if worker w2 = Finished
                     then
                       (let w3 = w2\<lparr>pimpl := (pimpl w2)\<lparr>raw_thread := None\<rparr>\<rparr>
                        in Returned (kErrorCodeOk,
                             w3\<lparr>pimpl := (pimpl w3)\<lparr>core_memory := None\<rparr>\<rparr>))
                     else Blocked
                 | AssertionFailed \<Rightarrow> AssertionFailed
                 | Fatal e \<Rightarrow> Fatal e
                 | Thrown x \<Rightarrow> Thrown x
                 | Blocked \<Rightarrow> Blocked
                 | OutOfBounds \<Rightarrow> OutOfBounds
                 | DivisionByZero \<Rightarrow> DivisionByZero))
      else Returned (kErrorCodeOk, w\<lparr>pimpl := (pimpl w)\<lparr>core_memory := None\<rparr>\<rparr>))"

text \<open>
  The worlds the three operations keep to. The worker's thread waits on the future of the
  current inbox promise or has ended; the inbox is not ready while the worker is not
  impersonated; a task waiting in the inbox finds the outbox not ready; and a thread
  that ended before it was joined was impersonated with a null task.
\<close>

definition handoff_inv :: "World \<Rightarrow> bool" where
  "handoff_inv w =
     (let ib = impersonated_task (pimpl w); ob = impersonated_task_result (pimpl w)
      in state_id ib < length (task_states w)
       \<and> task_states w ! state_id ib \<noteq> BrokenPromise
       \<and> (\<not> impersonated (pimpl w) \<longrightarrow> task_states w ! state_id ib = NotReady)
       \<and> (case task_states w ! state_id ib of
             Ready (Some t) \<Rightarrow>
               state_id ob < length (result_states w)
             \<and> result_states w ! state_id ob = NotReady
           | _ \<Rightarrow> True)
       \<and> (case worker w of
             AtGet fut \<Rightarrow> fut = state_id ib \<and> future_retrieved ib
           | Finished \<Rightarrow> raw_thread (pimpl w) \<noteq> None \<longrightarrow> impersonated (pimpl w)
           | _ \<Rightarrow> False))"

text \<open>The inbox promise can take a value: its shared state is there and not ready.\<close>

definition inbox_open :: "World \<Rightarrow> bool" where
  "inbox_open w =
     (state_id (impersonated_task (pimpl w)) < length (task_states w)
      \<and> task_states w ! state_id (impersonated_task (pimpl w)) = NotReady)"

text \<open>
  What an iteration of the worker loop needs of the world when its wait ends: the thread
  waits on the future of the current inbox promise, which holds a value, and a task finds
  the worker impersonated and the outbox not ready.
\<close>

definition value_received :: "World \<Rightarrow> nat \<Rightarrow> task_ptr \<Rightarrow> bool" where
  "value_received w fut functor =
     (state_id (impersonated_task (pimpl w)) = fut
      \<and> fut < length (task_states w)
      \<and> task_states w ! fut = Ready functor
      \<and> (functor \<noteq> None \<longrightarrow>
            impersonated (pimpl w)
          \<and> state_id (impersonated_task_result (pimpl w)) < length (result_states w)
          \<and> result_states w ! state_id (impersonated_task_result (pimpl w)) = NotReady))"

text \<open>Concrete inputs: a worker as constructed, and the tasks 7 and 8.\<close>

definition constructed_world :: World where
  "constructed_world =
     \<lparr>pimpl = \<lparr>thread_id = 258, holder = 42, core_memory = None, raw_thread = None,
               exitted = False, impersonated = False,
               impersonated_task = \<lparr>state_id = 0, future_retrieved = False\<rparr>,
               impersonated_task_result = \<lparr>state_id = 0, future_retrieved = False\<rparr>\<rparr>,
      task_states = [NotReady], result_states = [NotReady], worker = NoThread\<rparr>"

definition test_env :: ThreadEnv where
  "test_env =
     \<lparr>task_run = (\<lambda>t h. if t = 7 then kErrorCodeOk else OtherError t),
      decompose_numa_node = (\<lambda>i. i div 256),
      get_core_memory = (\<lambda>i. Some i),
      new_thread = Some 1,
      assert_enabled = True\<rparr>"

definition idle_world :: World where
  "idle_world =
     \<lparr>pimpl = \<lparr>thread_id = 258, holder = 42, core_memory = Some 258, raw_thread = Some 1,
               exitted = False, impersonated = False,
               impersonated_task = \<lparr>state_id = 0, future_retrieved = True\<rparr>,
               impersonated_task_result = \<lparr>state_id = 0, future_retrieved = False\<rparr>\<rparr>,
      task_states = [NotReady], result_states = [NotReady], worker = AtGet 0\<rparr>"

definition new_session :: "task_ptr \<Rightarrow> ImpersonateSession" where
  "new_session t = \<lparr>thread = None, result_future = None, task = t, invalid_cause = kErrorCodeOk\<rparr>"

definition busy_world :: World where
  "busy_world =
     \<lparr>pimpl = \<lparr>thread_id = 258, holder = 42, core_memory = Some 258, raw_thread = Some 1,
               exitted = False, impersonated = True,
               impersonated_task = \<lparr>state_id = 0, future_retrieved = True\<rparr>,
               impersonated_task_result = \<lparr>state_id = 1, future_retrieved = True\<rparr>\<rparr>,
      task_states = [Ready (Some 7)], result_states = [BrokenPromise, NotReady],
      worker = AtGet 0\<rparr>"

definition bound_session :: ImpersonateSession where
  "bound_session =
     \<lparr>thread = Some 42, result_future = Some 1, task = Some 7, invalid_cause = kErrorCodeOk\<rparr>"

definition served_world :: World where
  "served_world =
     \<lparr>pimpl = \<lparr>thread_id = 258, holder = 42, core_memory = Some 258, raw_thread = Some 1,
               exitted = False, impersonated = False,
               impersonated_task = \<lparr>state_id = 1, future_retrieved = True\<rparr>,
               impersonated_task_result = \<lparr>state_id = 1, future_retrieved = True\<rparr>\<rparr>,
      task_states = [Ready (Some 7), NotReady],
      result_states = [BrokenPromise, Ready kErrorCodeOk], worker = AtGet 1\<rparr>"

definition stopping_world :: World where
  "stopping_world =
     \<lparr>pimpl = \<lparr>thread_id = 258, holder = 42, core_memory = Some 258, raw_thread = Some 1,
               exitted = False, impersonated = False,
               impersonated_task = \<lparr>state_id = 0, future_retrieved = True\<rparr>,
               impersonated_task_result = \<lparr>state_id = 0, future_retrieved = False\<rparr>\<rparr>,
      task_states = [Ready None], result_states = [NotReady], worker = AtGet 0\<rparr>"

text \<open>
  The world and the session a call of \<open>try_impersonate\<close> for the task 7 leaves on
  \<open>stopping_world\<close>, the idle worker whose inbox already holds the null task that
  \<open>uninitialize_once\<close> set at line 29.
\<close>

definition stranded_world :: World where
  "stranded_world =
     \<lparr>pimpl = \<lparr>thread_id = 258, holder = 42, core_memory = Some 258, raw_thread = Some 1,
               exitted = False, impersonated = True,
               impersonated_task = \<lparr>state_id = 0, future_retrieved = True\<rparr>,
               impersonated_task_result = \<lparr>state_id = 1, future_retrieved = True\<rparr>\<rparr>,
      task_states = [Ready None], result_states = [BrokenPromise, NotReady],
      worker = AtGet 0\<rparr>"

definition stopped_world :: World where
  "stopped_world =
     \<lparr>pimpl = \<lparr>thread_id = 258, holder = 42, core_memory = None, raw_thread = None,
               exitted = True, impersonated = False,
               impersonated_task = \<lparr>state_id = 1, future_retrieved = False\<rparr>,
               impersonated_task_result = \<lparr>state_id = 0, future_retrieved = False\<rparr>\<rparr>,
      task_states = [Ready None, NotReady], result_states = [NotReady], worker = Finished\<rparr>"

text \<open>The events of a run of \<open>handle_tasks\<close>, and the world it leaves.\<close>

definition events_of :: "(trace \<times> World) outcome \<Rightarrow> event list" where
  "events_of r = (case r of Returned (tr, w) \<Rightarrow> map fst tr | _ \<Rightarrow> [])"

definition world_of :: "(trace \<times> World) outcome \<Rightarrow> World option" where
  "world_of r = (case r of Returned (tr, w) \<Rightarrow> Some w | _ \<Rightarrow> None)"

section \<open>Commit conflict test (test\_xct\_commit\_conflict.cpp)\<close>

record Payload =
  payload_id :: "64 word"
  payload_data :: "64 word"

text \<open>
  The transaction manager, the array storage and the thread context are not among the
  source files. The test's functions take them as parameters: each call returns its error
  code and the context after the call, \<open>get_record\<close> also the payload it read.
\<close>

record 'c Collaborators =
  begin_xct :: "'c \<Rightarrow> ErrorCode \<times> 'c"
  get_record :: "'c \<Rightarrow> 64 word \<Rightarrow> ErrorCode \<times> Payload \<times> 'c"
  overwrite_record :: "'c \<Rightarrow> 64 word \<Rightarrow> Payload \<Rightarrow> ErrorCode \<times> 'c"
  precommit_xct :: "'c \<Rightarrow> ErrorCode \<times> 'c"
  abort_xct :: "'c \<Rightarrow> ErrorCode \<times> 'c"
  is_running_xct :: "'c \<Rightarrow> bool"
  create_array :: "'c \<Rightarrow> nat \<Rightarrow> ErrorCode \<times> 'c"

text \<open>
  \<open>TestTask::try_transaction\<close>. The state is the context and the number of failed
  \<open>EXPECT_EQ\<close>s so far (a failed expectation is counted and the test goes on).
  \<open>CHECK_ERROR\<close> returns the error of the call it wraps.
\<close>

definition try_transaction ::
    "'c Collaborators \<Rightarrow> 64 word \<Rightarrow> 64 word \<Rightarrow> 'c \<times> nat \<Rightarrow> ErrorCode \<times> ('c \<times> nat)" where
  "try_transaction env offset amount s =
     (case begin_xct env (fst s) of (e1, c1) \<Rightarrow>
        if is_error e1 then (e1, (c1, snd s))
        else case get_record env c1 offset of (e2, payload, c2) \<Rightarrow>
          if is_error e2 then (e2, (c2, snd s))
          else
            (let failed = (if offset = payload_id payload then snd s else snd s + 1);
                 payload' = payload\<lparr>payload_data := payload_data payload + amount\<rparr>
             in case overwrite_record env c2 offset payload' of (e3, c3) \<Rightarrow>
                  if is_error e3 then (e3, (c3, failed))
                  else case precommit_xct env c3 of (e4, c4) \<Rightarrow>
                    if is_error e4 then (e4, (c4, failed))
                    else (kErrorCodeOk, (c4, failed))))"

text \<open>
  \<open>TestTask::run\<close>, from the loop on (the wait for the start signal is before it). The
  loop has no bound: \<open>None\<close> is a run that never leaves it. \<open>COERCE_ERROR\<close> on an error
  stops the process (\<open>Fatal\<close>).
\<close>

partial_function (option) TestTask_run ::
    "'c Collaborators \<Rightarrow> 64 word \<Rightarrow> 64 word \<Rightarrow> 'c \<times> nat
       \<Rightarrow> (ErrorCode \<times> ('c \<times> nat)) outcome option" where
  "TestTask_run env offset amount s =
     (case try_transaction env offset amount s of (error_stack, s1) \<Rightarrow>
        if \<not> is_error error_stack then Some (Returned (kErrorCodeOk, s1))
        else if error_stack = ERROR_CODE_XCT_RACE_ABORT
        then
          (if is_running_xct env (fst s1)
           then (case abort_xct env (fst s1) of (e, c2) \<Rightarrow>
                   if is_error e then Some (Returned (e, (c2, snd s1)))
                   else TestTask_run env offset amount (c2, snd s1))
           else TestTask_run env offset amount s1)
        else Some (Fatal error_stack))"

text \<open>
  The state in which the loop starts its next round after a round that ended in a race
  abort: the transaction, when still running, has been aborted. \<open>None\<close> when the round did
  not end in a race abort or \<open>abort_xct\<close> failed.
\<close>

definition after_race :: "'c Collaborators \<Rightarrow> 64 word \<Rightarrow> 64 word \<Rightarrow> 'c \<times> nat \<Rightarrow> ('c \<times> nat) option" where
  "after_race env offset amount s =
     (case try_transaction env offset amount s of (error_stack, s1) \<Rightarrow>
        if error_stack \<noteq> ERROR_CODE_XCT_RACE_ABORT then None
        else if is_running_xct env (fst s1)
        then (case abort_xct env (fst s1) of (e, c2) \<Rightarrow>
                if is_error e then None else Some (c2, snd s1))
        else Some s1)"

fun after_races :: "'c Collaborators \<Rightarrow> 64 word \<Rightarrow> 64 word \<Rightarrow> nat \<Rightarrow> 'c \<times> nat \<Rightarrow> ('c \<times> nat) option" where
  "after_races env offset amount 0 s = Some s"
| "after_races env offset amount (Suc n) s =
     (case after_race env offset amount s of
        None \<Rightarrow> None
      | Some s' \<Rightarrow> after_races env offset amount n s')"

definition RECORDS :: nat where "RECORDS = 10"

definition THREADS :: nat where "THREADS = 10"

text \<open>\<open>InitTask::run\<close>: the loop of lines 45 to 50, then the whole task.\<close>

fun InitTask_records :: "'c Collaborators \<Rightarrow> nat list \<Rightarrow> 'c \<Rightarrow> ErrorCode \<times> 'c" where
  "InitTask_records env [] c = (kErrorCodeOk, c)"
| "InitTask_records env (i # rest) c =
     (case overwrite_record env c (of_nat i) \<lparr>payload_id = of_nat i, payload_data = 0\<rparr> of
        (e, c1) \<Rightarrow> if is_error e then (e, c1) else InitTask_records env rest c1)"

definition InitTask_run :: "'c Collaborators \<Rightarrow> 'c \<Rightarrow> ErrorCode \<times> 'c" where
  "InitTask_run env c =
     (case create_array env c RECORDS of (e1, c1) \<Rightarrow>
        if is_error e1 then (e1, c1)
        else case begin_xct env c1 of (e2, c2) \<Rightarrow>
          if is_error e2 then (e2, c2)
          else case InitTask_records env [0..<RECORDS] c2 of (e3, c3) \<Rightarrow>
            if is_error e3 then (e3, c3)
            else case precommit_xct env c3 of (e4, c4) \<Rightarrow>
              if is_error e4 then (e4, c4) else (kErrorCodeOk, c4))"

text \<open>\<open>GetAllRecordsTask::run\<close>; the payloads read so far stand for \<open>output_\<close>.\<close>

fun GetAllRecordsTask_records ::
    "'c Collaborators \<Rightarrow> nat list \<Rightarrow> Payload list \<Rightarrow> 'c \<Rightarrow> ErrorCode \<times> Payload list \<times> 'c" where
  "GetAllRecordsTask_records env [] output c = (kErrorCodeOk, output, c)"
| "GetAllRecordsTask_records env (i # rest) output c =
     (case get_record env c (of_nat i) of
        (e, payload, c1) \<Rightarrow>
          if is_error e then (e, output, c1)
          else GetAllRecordsTask_records env rest (output @ [payload]) c1)"

definition GetAllRecordsTask_run :: "'c Collaborators \<Rightarrow> 'c \<Rightarrow> ErrorCode \<times> Payload list \<times> 'c" where
  "GetAllRecordsTask_run env c =
     (case begin_xct env c of (e1, c1) \<Rightarrow>
        if is_error e1 then (e1, [], c1)
        else case GetAllRecordsTask_records env [0..<RECORDS] [] c1 of (e2, output, c2) \<Rightarrow>
          if is_error e2 then (e2, output, c2)
          else case precommit_xct env c2 of (e3, c3) \<Rightarrow>
            if is_error e3 then (e3, output, c3) else (kErrorCodeOk, output, c3))"

text \<open>
  \<open>run_test\<close>. The ten tasks run on ten workers at the same time. Serializable isolation
  makes the table what the committed transactions give when run one after the other in
  their commit order, so the tasks are run to completion one by one in an order \<open>order\<close>
  of the task numbers, which stands for the commit order. \<open>COERCE_ERROR\<close> on the result
  of a task stops the process.
\<close>

fun run_tasks ::
    "'c Collaborators \<Rightarrow> (nat \<Rightarrow> nat) \<Rightarrow> nat list \<Rightarrow> 'c \<times> nat \<Rightarrow> ('c \<times> nat) outcome option" where
  "run_tasks env assign_func [] s = Some (Returned s)"
| "run_tasks env assign_func (i # rest) s =
     (case TestTask_run env (of_nat (assign_func i)) (of_nat (i * 20 + 4)) s of
        None \<Rightarrow> None
      | Some (Returned (e, s1)) \<Rightarrow>
          if is_error e then Some (Fatal e) else run_tasks env assign_func rest s1
      | Some AssertionFailed \<Rightarrow> Some AssertionFailed
      | Some (Fatal e) \<Rightarrow> Some (Fatal e)
      | Some (Thrown x) \<Rightarrow> Some (Thrown x)
      | Some Blocked \<Rightarrow> Some Blocked
      | Some OutOfBounds \<Rightarrow> Some OutOfBounds
      | Some DivisionByZero \<Rightarrow> Some DivisionByZero)"

text \<open>Lines 146 to 150; \<open>None\<close> is an index past the end of \<open>answers\<close>.\<close>

fun compute_answers :: "(nat \<Rightarrow> nat) \<Rightarrow> nat list \<Rightarrow> 64 word list \<Rightarrow> 64 word list option" where
  "compute_answers assign_func [] answers = Some answers"
| "compute_answers assign_func (i # rest) answers =
     (if assign_func i < length answers
      then compute_answers assign_func rest
             (answers[assign_func i := answers ! assign_func i + of_nat (i * 20 + 4)])
      else None)"

text \<open>Lines 154 to 156: the number of expectations that fail.\<close>

fun failed_expectations :: "nat list \<Rightarrow> 64 word list \<Rightarrow> Payload list \<Rightarrow> nat" where
  "failed_expectations [] answers payloads = 0"
| "failed_expectations (i # rest) answers payloads =
     (if (of_nat i :: 64 word) = payload_id (payloads ! i) then 0 else 1)
     + (if answers ! i = payload_data (payloads ! i) then 0 else 1)
     + failed_expectations rest answers payloads"

definition run_test ::
    "'c Collaborators \<Rightarrow> (nat \<Rightarrow> nat) \<Rightarrow> nat list \<Rightarrow> 'c \<Rightarrow> (Payload list \<times> nat) outcome option" where
  "run_test env assign_func order c =
     (case InitTask_run env c of (e1, c1) \<Rightarrow>
        if is_error e1 then Some (Fatal e1)
        else case run_tasks env assign_func order (c1, 0) of
            None \<Rightarrow> None
          | Some (Returned (c2, failed)) \<Rightarrow>
              (case compute_answers assign_func [0..<THREADS] (replicate THREADS 0) of
                 None \<Rightarrow> Some OutOfBounds
               | Some answers \<Rightarrow>
                   (case GetAllRecordsTask_run env c2 of (e2, payloads, c3) \<Rightarrow>
                      if is_error e2 then Some (Fatal e2)
                      else Some (Returned (payloads,
                             failed + failed_expectations [0..<THREADS] answers payloads))))
          | Some AssertionFailed \<Rightarrow> Some AssertionFailed
          | Some (Fatal e) \<Rightarrow> Some (Fatal e)
          | Some (Thrown x) \<Rightarrow> Some (Thrown x)
          | Some Blocked \<Rightarrow> Some Blocked
          | Some OutOfBounds \<Rightarrow> Some OutOfBounds
          | Some DivisionByZero \<Rightarrow> Some DivisionByZero)"

text \<open>
  Modelled from the spec: the transaction manager and the array storage, which are not
  among the source files, as section 4.6 of the specification describes them. A
  transaction is inactive or active; \<open>begin_xct\<close> makes it active and fails when it
  already is; \<open>get_record\<close> returns the current value of the record; \<open>overwrite_record\<close>
  records a write that becomes visible at commit; \<open>precommit_xct\<close> validates and either
  publishes the writes or fails with the race abort, and leaves the transaction inactive
  either way; \<open>abort_xct\<close> discards the transaction. Whether a validation fails depends
  on what other workers commit meanwhile, which the context lists: \<open>races\<close> holds, for
  each transaction still to commit, how many of its validations fail first. The
  specification names no error for a call outside a transaction, for \<open>begin_xct\<close> inside
  one or for an offset past the end of the array; they are \<open>OtherError 1\<close>, \<open>2\<close>, \<open>3\<close>.
\<close>

record SerialContext =
  table :: "Payload list"
  xct_active :: bool
  write_set :: "(nat \<times> Payload) list"
  races :: "nat list"

text \<open>Modelled from the spec: the writes of a transaction, published in the order made.\<close>

definition apply_writes :: "(nat \<times> Payload) list \<Rightarrow> Payload list \<Rightarrow> Payload list" where
  "apply_writes ws t = fold (\<lambda>(i, p) t'. t'[i := p]) ws t"

text \<open>Modelled from the spec: \<open>begin_xct\<close> "transitions to active; fails if already active".\<close>

definition serial_begin_xct :: "SerialContext \<Rightarrow> ErrorCode \<times> SerialContext" where
  "serial_begin_xct c =
     (if xct_active c then (OtherError 2, c)
      else (kErrorCodeOk, c\<lparr>xct_active := True, write_set := []\<rparr>))"

text \<open>Modelled from the spec: \<open>get_record\<close> "returns the current logical value".\<close>

definition serial_get_record :: "SerialContext \<Rightarrow> 64 word \<Rightarrow> ErrorCode \<times> Payload \<times> SerialContext" where
  "serial_get_record c offset =
     (if \<not> xct_active c then (OtherError 1, \<lparr>payload_id = 0, payload_data = 0\<rparr>, c)
      else if unat offset < length (table c) then (kErrorCodeOk, table c ! unat offset, c)
      else (OtherError 3, \<lparr>payload_id = 0, payload_data = 0\<rparr>, c))"

text \<open>
  Modelled from the spec: \<open>overwrite_record\<close> "records a write; the new value is visible
  at commit".
\<close>

definition serial_overwrite_record ::
    "SerialContext \<Rightarrow> 64 word \<Rightarrow> Payload \<Rightarrow> ErrorCode \<times> SerialContext" where
  "serial_overwrite_record c offset payload =
     (if \<not> xct_active c then (OtherError 1, c)
      else if unat offset < length (table c)
      then (kErrorCodeOk, c\<lparr>write_set := write_set c @ [(unat offset, payload)]\<rparr>)
      else (OtherError 3, c))"

text \<open>
  Modelled from the spec: \<open>precommit_xct\<close> "validates and either publishes the writes at
  a commit epoch or fails with race-abort"; both ways the transaction ends inactive.
\<close>

definition serial_precommit_xct :: "SerialContext \<Rightarrow> ErrorCode \<times> SerialContext" where
  "serial_precommit_xct c =
     (if \<not> xct_active c then (OtherError 1, c)
      else case races c of
             Suc k # rest \<Rightarrow>
               (ERROR_CODE_XCT_RACE_ABORT,
                c\<lparr>xct_active := False, write_set := [], races := k # rest\<rparr>)
           | 0 # rest \<Rightarrow>
               (kErrorCodeOk,
                c\<lparr>table := apply_writes (write_set c) (table c), xct_active := False,
                  write_set := [], races := rest\<rparr>)
           | [] \<Rightarrow>
               (kErrorCodeOk,
                c\<lparr>table := apply_writes (write_set c) (table c), xct_active := False,
                  write_set := []\<rparr>))"

text \<open>Modelled from the spec: \<open>abort_xct\<close> "discards the in-flight transaction".\<close>

definition serial_abort_xct :: "SerialContext \<Rightarrow> ErrorCode \<times> SerialContext" where
  "serial_abort_xct c =
     (if \<not> xct_active c then (OtherError 1, c)
      else (kErrorCodeOk, c\<lparr>xct_active := False, write_set := []\<rparr>))"

text \<open>
  Modelled from the spec: \<open>create_array\<close>, of which the specification says nothing; it
  makes an array of \<open>n\<close> zeroed records.
\<close>

definition serial_create_array :: "SerialContext \<Rightarrow> nat \<Rightarrow> ErrorCode \<times> SerialContext" where
  "serial_create_array c n =
     (kErrorCodeOk, c\<lparr>table := replicate n \<lparr>payload_id = 0, payload_data = 0\<rparr>\<rparr>)"

definition serial_engine :: "SerialContext Collaborators" where
  "serial_engine =
     \<lparr>begin_xct = serial_begin_xct, get_record = serial_get_record,
      overwrite_record = serial_overwrite_record, precommit_xct = serial_precommit_xct,
      abort_xct = serial_abort_xct, is_running_xct = xct_active,
      create_array = serial_create_array\<rparr>"

text \<open>
  The engine as \<open>run_test\<close> finds it. \<open>InitTask\<close> runs alone and meets no race; the
  entries of \<open>ks\<close> are the numbers of race aborts of the increment transactions, in
  commit order.
\<close>

definition started_engine :: "nat list \<Rightarrow> SerialContext" where
  "started_engine ks = \<lparr>table = [], xct_active = False, write_set = [], races = 0 # take 10 ks\<rparr>"

text \<open>
  The effect of one committed increment transaction on the table, and of a sequence of
  them in commit order.
\<close>

definition increment :: "Payload list \<Rightarrow> nat \<Rightarrow> 64 word \<Rightarrow> Payload list" where
  "increment t offset amount =
     t[offset := (t ! offset)\<lparr>payload_data := payload_data (t ! offset) + amount\<rparr>]"

fun apply_tasks :: "(nat \<Rightarrow> nat) \<Rightarrow> nat list \<Rightarrow> Payload list \<Rightarrow> Payload list" where
  "apply_tasks assign_func [] t = t"
| "apply_tasks assign_func (i # rest) t =
     apply_tasks assign_func rest (increment t (assign_func i) (of_nat (i * 20 + 4)))"

definition amount_for :: "(nat \<Rightarrow> nat) \<Rightarrow> nat \<Rightarrow> nat list \<Rightarrow> nat" where
  "amount_for assign_func r order = (\<Sum>i \<leftarrow> order. if assign_func i = r then i * 20 + 4 else 0)"

definition initial_table :: "Payload list" where
  "initial_table = map (\<lambda>r. \<lparr>payload_id = of_nat r, payload_data = 0\<rparr>) [0..<10]"

definition quiet :: "SerialContext \<Rightarrow> bool" where
  "quiet c = (\<not> xct_active c \<and> write_set c = [])"

definition ids_in_place :: "Payload list \<Rightarrow> bool" where
  "ids_in_place t = (\<forall>r < length t. payload_id (t ! r) = of_nat r)"

text \<open>What \<open>run_test\<close> expects record \<open>r\<close> to hold.\<close>

definition expected_data :: "(nat \<Rightarrow> nat) \<Rightarrow> nat \<Rightarrow> 64 word" where
  "expected_data assign_func r =
     of_nat (\<Sum>i \<leftarrow> [0..<10]. if assign_func i = r then i * 20 + 4 else 0)"

definition expected_table :: "(nat \<Rightarrow> nat) \<Rightarrow> Payload list" where
  "expected_table assign_func =
     map (\<lambda>r. \<lparr>payload_id = of_nat r, payload_data = expected_data assign_func r\<rparr>) [0..<10]"

text \<open>The assignments of the LightConflict and ExtremeConflict tests, and their tables.\<close>

definition light_assign :: "nat \<Rightarrow> nat" where
  "light_assign i = i div 2"

definition extreme_assign :: "nat \<Rightarrow> nat" where
  "extreme_assign i = 0"

definition light_table :: "Payload list" where
  "light_table =
     [\<lparr>payload_id = 0, payload_data = 28\<rparr>, \<lparr>payload_id = 1, payload_data = 108\<rparr>,
      \<lparr>payload_id = 2, payload_data = 188\<rparr>, \<lparr>payload_id = 3, payload_data = 268\<rparr>,
      \<lparr>payload_id = 4, payload_data = 348\<rparr>, \<lparr>payload_id = 5, payload_data = 0\<rparr>,
      \<lparr>payload_id = 6, payload_data = 0\<rparr>, \<lparr>payload_id = 7, payload_data = 0\<rparr>,
      \<lparr>payload_id = 8, payload_data = 0\<rparr>, \<lparr>payload_id = 9, payload_data = 0\<rparr>]"

definition extreme_table :: "Payload list" where
  "extreme_table =
     [\<lparr>payload_id = 0, payload_data = 940\<rparr>, \<lparr>payload_id = 1, payload_data = 0\<rparr>,
      \<lparr>payload_id = 2, payload_data = 0\<rparr>, \<lparr>payload_id = 3, payload_data = 0\<rparr>,
      \<lparr>payload_id = 4, payload_data = 0\<rparr>, \<lparr>payload_id = 5, payload_data = 0\<rparr>,
      \<lparr>payload_id = 6, payload_data = 0\<rparr>, \<lparr>payload_id = 7, payload_data = 0\<rparr>,
      \<lparr>payload_id = 8, payload_data = 0\<rparr>, \<lparr>payload_id = 9, payload_data = 0\<rparr>]"

text \<open>
  A test double for the path of the retry loop that aborts: an engine whose validation
  failure leaves the transaction running.
\<close>

definition lingering_engine :: "SerialContext Collaborators" where
  "lingering_engine =
     serial_engine\<lparr>precommit_xct :=
       (\<lambda>c. case serial_precommit_xct c of
               (e, c') \<Rightarrow>
                 if e = ERROR_CODE_XCT_RACE_ABORT then (e, c'\<lparr>xct_active := True\<rparr>)
                 else (e, c'))\<rparr>"

definition loaded_engine :: "nat list \<Rightarrow> SerialContext" where
  "loaded_engine ks = \<lparr>table = initial_table, xct_active = False, write_set = [], races = ks\<rparr>"

definition some_order :: "nat list" where
  "some_order = [3, 1, 4, 0, 5, 9, 2, 6, 8, 7]"

section \<open>Trade order (tpce\_trade\_order.cpp)\<close>

record TradeTypeData =
  tt_id :: string

record TradeData =
  t_dts :: nat
  t_id :: nat
  t_symb_id :: nat

text \<open>
  The calls \<open>do_trade_order\<close> makes on the three storages, each paired in the trace with
  the error code it returned: \<open>get_record\<close> on TRADE_TYPE, \<open>insert_record\<close> on TRADE with
  the key and the record, \<open>insert_record_normalized\<close> on the secondary index with the key
  and the value.
\<close>

datatype storage_call =
    GetTradeType nat
  | InsertTrade nat TradeData
  | InsertTradeIndex nat nat

type_synonym call_trace = "(storage_call \<times> ErrorCode) list"

text \<open>
  What the function takes from outside the file: the next random number, the constants
  of \<open>TradeTypeData\<close>, the artificial clock and trade id, the worker id, the key
  composition \<open>to_symb_dts_key\<close>, the three storages (each call returns its error code
  and the state after it), whether the \<open>ASSERT_ND\<close> of line 68 stops the run (the
  macro's definition is not among the source files, and nothing is said elsewhere of what
  this check does), and the contents of the local \<open>record\<close> before any field is set:
  the function sets \<open>dts_\<close> and \<open>id_\<close> only.
\<close>

record 's TpceEnv =
  next_uint32 :: "32 word"
  kCount :: nat
  kTlb :: nat
  kTls :: nat
  kTmb :: nat
  kTms :: nat
  get_articifical_current_dts :: nat
  get_artificial_new_trade_id :: nat
  worker_id :: nat
  to_symb_dts_key :: "nat \<Rightarrow> nat \<Rightarrow> nat \<Rightarrow> nat"
  trade_types_get_record :: "'s \<Rightarrow> nat \<Rightarrow> ErrorCode \<times> TradeTypeData \<times> 's"
  trades_insert_record :: "'s \<Rightarrow> nat \<Rightarrow> TradeData \<Rightarrow> ErrorCode \<times> 's"
  trades_index_insert_record_normalized :: "'s \<Rightarrow> nat \<Rightarrow> nat \<Rightarrow> ErrorCode \<times> 's"
  tpce_assert_nd :: bool
  uninitialized_record :: TradeData

text \<open>Lines 41 to 56.\<close>

definition choose_trade_type_id :: "'s TpceEnv \<Rightarrow> nat \<Rightarrow> string" where
  "choose_trade_type_id env r =
     (if r = kTlb env then ''TLB''
      else if r = kTls env then ''TLS''
      else if r = kTmb env then ''TMB''
      else if r = kTms env then ''TMS''
      else ''TSL'')"

text \<open>
  \<open>memcmp(tt_record.id_, in_trade_type_id, sizeof(tt_record.id_)) == 0\<close>: the bytes of
  \<open>id_\<close> against as many bytes of the literal and its terminating zero.
\<close>

definition memcmp_equal :: "string \<Rightarrow> string \<Rightarrow> bool" where
  "memcmp_equal id_bytes literal = (id_bytes = take (length id_bytes) (literal @ [CHR 0x00]))"

text \<open>Lines 61 to 67: error code, \<open>type_found\<close>, trace and storage state.\<close>

fun scan_trade_types ::
    "'s TpceEnv \<Rightarrow> string \<Rightarrow> nat list \<Rightarrow> call_trace \<Rightarrow> 's \<Rightarrow> ErrorCode \<times> bool \<times> call_trace \<times> 's" where
  "scan_trade_types env in_trade_type_id [] tr s = (kErrorCodeOk, False, tr, s)"
| "scan_trade_types env in_trade_type_id (i # rest) tr s =
     (case trade_types_get_record env s i of
        (e, tt_record, s1) \<Rightarrow>
          if e \<noteq> kErrorCodeOk then (e, False, tr @ [(GetTradeType i, e)], s1)
          else if memcmp_equal (tt_id tt_record) in_trade_type_id
          then (kErrorCodeOk, True, tr @ [(GetTradeType i, e)], s1)
          else scan_trade_types env in_trade_type_id rest (tr @ [(GetTradeType i, e)]) s1)"

definition do_trade_order :: "'s TpceEnv \<Rightarrow> 's \<Rightarrow> (ErrorCode \<times> call_trace \<times> 's) outcome" where
  "do_trade_order env s =
     (if kCount env = 0 then DivisionByZero
      else
        (let r = unat (next_uint32 env) mod kCount env;
             in_trade_type_id = choose_trade_type_id env r
         in case scan_trade_types env in_trade_type_id [0..<kCount env] [] s of
              (e1, type_found, tr1, s1) \<Rightarrow>
                if e1 \<noteq> kErrorCodeOk then Returned (e1, tr1, s1)
                else if tpce_assert_nd env \<and> \<not> type_found then AssertionFailed
                else
                  (let now_dts = get_articifical_current_dts env;
                       tid = get_artificial_new_trade_id env;
                       record = (uninitialized_record env)\<lparr>t_dts := now_dts, t_id := tid\<rparr>
                   in case trades_insert_record env s1 tid record of
                        (e2, s2) \<Rightarrow>
                          if e2 \<noteq> kErrorCodeOk
                          then Returned (e2, tr1 @ [(InsertTrade tid record, e2)], s2)
                          else
                            (let secondary_key =
                                   to_symb_dts_key env (t_symb_id record) now_dts (worker_id env)
                             in case trades_index_insert_record_normalized env s2
                                       secondary_key tid of
                                  (e3, s3) \<Rightarrow>
                                    if e3 \<noteq> kErrorCodeOk
                                    then Returned (e3,
                                           tr1 @ [(InsertTrade tid record, e2),
                                                  (InsertTradeIndex secondary_key tid, e3)], s3)
                                    else Returned (kErrorCodeOk,
                                           tr1 @ [(InsertTrade tid record, e2),
                                                  (InsertTradeIndex secondary_key tid, e3)],
                                           s3)))))"

definition is_get :: "storage_call \<times> ErrorCode \<Rightarrow> bool" where
  "is_get c = (case fst c of GetTradeType i \<Rightarrow> True | _ \<Rightarrow> False)"

definition is_insert_trade :: "storage_call \<times> ErrorCode \<Rightarrow> bool" where
  "is_insert_trade c = (case fst c of InsertTrade k r \<Rightarrow> True | _ \<Rightarrow> False)"

definition is_insert_index :: "storage_call \<times> ErrorCode \<Rightarrow> bool" where
  "is_insert_index c = (case fst c of InsertTradeIndex k v \<Rightarrow> True | _ \<Rightarrow> False)"

text \<open>
  Concrete inputs: TRADE_TYPE holds the five types, TRADE and the index are association
  lists that refuse a key they already hold with \<open>OtherError 9\<close>.
\<close>

record TpceStore =
  trade_types :: "TradeTypeData list"
  trades :: "(nat \<times> TradeData) list"
  trades_secondary_symb_dts :: "(nat \<times> nat) list"

definition store_env :: "32 word \<Rightarrow> nat \<Rightarrow> nat \<Rightarrow> TpceStore TpceEnv" where
  "store_env rnd now tid =
     \<lparr>next_uint32 = rnd, kCount = 5, kTlb = 0, kTls = 1, kTmb = 2, kTms = 3,
      get_articifical_current_dts = now, get_artificial_new_trade_id = tid, worker_id = 6,
      to_symb_dts_key = (\<lambda>symb dts w. (symb * 1000 + dts) * 100 + w),
      trade_types_get_record =
        (\<lambda>s i. if i < length (trade_types s) then (kErrorCodeOk, trade_types s ! i, s)
                else (OtherError 3, \<lparr>tt_id = []\<rparr>, s)),
      trades_insert_record =
        (\<lambda>s k r. if k \<in> fst ` set (trades s) then (OtherError 9, s)
                  else (kErrorCodeOk, s\<lparr>trades := trades s @ [(k, r)]\<rparr>)),
      trades_index_insert_record_normalized =
        (\<lambda>s k v. if k \<in> fst ` set (trades_secondary_symb_dts s) then (OtherError 9, s)
                  else (kErrorCodeOk,
                        s\<lparr>trades_secondary_symb_dts := trades_secondary_symb_dts s @ [(k, v)]\<rparr>)),
      tpce_assert_nd = True,
      uninitialized_record = \<lparr>t_dts = 0, t_id = 0, t_symb_id = 77\<rparr>\<rparr>"

definition loaded_store :: TpceStore where
  "loaded_store =
     \<lparr>trade_types = [\<lparr>tt_id = ''TLB''\<rparr>, \<lparr>tt_id = ''TLS''\<rparr>, \<lparr>tt_id = ''TMB''\<rparr>,
                     \<lparr>tt_id = ''TMS''\<rparr>, \<lparr>tt_id = ''TSL''\<rparr>],
      trades = [(500, \<lparr>t_dts = 1, t_id = 500, t_symb_id = 2\<rparr>)],
      trades_secondary_symb_dts = []\<rparr>"

section \<open>Properties of engine memory\<close>

lemma minimal_page_pool_exact: "minimal_page_pool env = minimal_exact env mod 2 ^ 64"
  unfolding minimal_page_pool_def minimal_exact_def total_threads_def
  by (simp add: mod_mult_left_eq)

lemma page_pool_bytes_exact: "page_pool_bytes opts = pool_bytes_exact opts mod 2 ^ 64"
proof -
  let ?mb = "page_pool_size_mb_per_node (memory_opts opts)"
  let ?gc = "group_count (thread_opts opts)"
  have "((?mb mod 2 ^ 64 * ?gc) mod 2 ^ 64 * 2 ^ 20) mod 2 ^ 64
      = (?mb mod 2 ^ 64 * ?gc * 2 ^ 20) mod (2 ^ 64 :: nat)"
    by (rule mod_mult_left_eq)
  also have "\<dots> = (?mb mod 2 ^ 64 * (?gc * 2 ^ 20)) mod 2 ^ 64"
    by (simp only: mult.assoc)
  also have "\<dots> = (?mb * (?gc * 2 ^ 20)) mod 2 ^ 64"
    by (rule mod_mult_left_eq)
  also have "?mb * (?gc * 2 ^ 20) = ?mb * 2 ^ 20 * ?gc"
    by (simp add: ac_simps)
  finally show ?thesis
    unfolding page_pool_bytes_def pool_bytes_exact_def .
qed

lemma page_pool_too_small_exact:
  "fits_uint64 env \<Longrightarrow>
     page_pool_too_small env = (pool_bytes_exact (options env) < minimal_exact env)"
  by (simp add: page_pool_too_small_def minimal_page_pool_exact page_pool_bytes_exact
      fits_uint64_def)

text \<open>
  C4. Once the debugging module and NUMA are there, initialization of a fresh engine
  memory ends at the sizing check with the page-pool-too-small error exactly when the
  pool of all nodes, in bytes, is strictly below
  \<open>(group_count * thread_count_per_group) * private_page_pool_initial_grab * PAGE_SIZE\<close>.
  At equality the check passes and the node memories are constructed; any pool below the
  minimum, by one byte or more, fails. Both byte counts are taken to fit the 64 bits
  the code computes them in.
\<close>

theorem page_pool_sizing_check:
  assumes "fits_uint64 env" and "debug_initialized env" and "0 \<le> numa_available env"
    and "node_memories em = []"
  shows "(page_pool_too_small env \<longleftrightarrow> pool_bytes_exact (options env) < minimal_exact env)
    \<and> (pool_bytes_exact (options env) < minimal_exact env \<longrightarrow>
         initialize_once env em = Returned (ERROR_CODE_MEMORY_PAGE_POOL_TOO_SMALL, em))
    \<and> (\<not> pool_bytes_exact (options env) < minimal_exact env \<longrightarrow>
         initialize_once env em = construct_node_memories env em)
    \<and> (pool_bytes_exact (options env) = minimal_exact env \<longrightarrow>
         initialize_once env em = construct_node_memories env em)
    \<and> (pool_bytes_exact (options env) + 1 = minimal_exact env \<longrightarrow>
         initialize_once env em = Returned (ERROR_CODE_MEMORY_PAGE_POOL_TOO_SMALL, em))"
  using assms by (simp add: page_pool_too_small_exact initialize_once_def ASSERT_ND_def)

theorem page_pool_sizing_check_witness:
  "fits_uint64 (tiny_env 2 (\<lambda>_. 513)) \<and> fits_uint64 (tiny_env 1 (\<lambda>_. 513))
   \<and> pool_bytes_exact (options (tiny_env 2 (\<lambda>_. 513))) = 4194304
   \<and> minimal_exact (tiny_env 2 (\<lambda>_. 513)) = 4194304
   \<and> pool_bytes_exact (options (tiny_env 1 (\<lambda>_. 513))) = 2097152
   \<and> initialize_once (tiny_env 2 (\<lambda>_. 513)) fresh_engine_memory
       = construct_node_memories (tiny_env 2 (\<lambda>_. 513)) fresh_engine_memory
   \<and> initialize_once (tiny_env 1 (\<lambda>_. 513)) fresh_engine_memory
       = Returned (ERROR_CODE_MEMORY_PAGE_POOL_TOO_SMALL, fresh_engine_memory)"
  using page_pool_sizing_check [of "tiny_env 2 (\<lambda>_. 513)" fresh_engine_memory]
    page_pool_sizing_check [of "tiny_env 1 (\<lambda>_. 513)" fresh_engine_memory]
  by (simp add: fits_uint64_def pool_bytes_exact_def minimal_exact_def tiny_env_def
      fresh_engine_memory_def)











section \<open>Properties of the worker thread\<close>

lemma initialize_once_gives_idle_world:
  "ThreadPimpl_initialize_once test_env constructed_world = Returned (kErrorCodeOk, idle_world)"
  by (simp add: ThreadPimpl_initialize_once_def test_env_def constructed_world_def idle_world_def
      prepend_def promise_get_future_def future_get_def)

lemma try_impersonate_keeps_inv:
  "handoff_inv w \<Longrightarrow> try_impersonate w s = (Returned b, w', s') \<Longrightarrow> handoff_inv w'"
  by (auto simp: try_impersonate_def handoff_inv_def Let_def atomic_compare_exchange_strong_def
      promise_assign_new_def promise_new_def promise_abandon_def promise_get_future_def
      promise_set_value_def nth_append
      split: if_splits sum.splits prod.splits shared_state.splits option.splits
        worker_pc.splits)

lemma handle_tasks_keeps_inv:
  "handoff_inv w \<Longrightarrow> handle_tasks env (worker w) w = Returned (tr, w') \<Longrightarrow> handoff_inv w'"
  by (cases "worker w")
    (auto simp: handoff_inv_def Let_def prepend_def
      promise_assign_new_def promise_new_def promise_abandon_def promise_get_future_def
      promise_set_value_def future_get_def nth_append
      split: if_splits sum.splits prod.splits shared_state.splits option.splits outcome.splits)

lemma uninitialize_once_keeps_inv:
  "handoff_inv w \<Longrightarrow> ThreadPimpl_uninitialize_once env w = Returned (e, w') \<Longrightarrow> handoff_inv w'"
  by (cases "worker w")
    (auto simp: handoff_inv_def Let_def prepend_def ThreadPimpl_uninitialize_once_def
      promise_assign_new_def promise_new_def promise_abandon_def promise_get_future_def
      promise_set_value_def future_get_def nth_append
      split: if_splits sum.splits prod.splits shared_state.splits option.splits outcome.splits)

lemma handoff_inv_inbox_open:
  "handoff_inv w \<Longrightarrow> \<not> impersonated (pimpl w) \<Longrightarrow> inbox_open w"
  by (simp add: handoff_inv_def inbox_open_def Let_def)

text \<open>
  \<open>try_impersonate\<close> never waits. On a worker that is impersonated already it returns
  false and changes neither the world nor the session. On a worker that is not, the
  compare-and-set turns \<open>impersonated\<close> from false to true, the outbox becomes a
  promise on a new shared state that is not ready and whose only future is the
  session's, and the session is bound to the worker's \<open>holder\<close>; what follows depends
  on the inbox. When the inbox can take a value the task is set in it and the call
  returns true. When it cannot, \<open>set_value\<close> throws: the call returns neither true nor
  false, and the flag, the outbox and the session stay as the statements before
  \<open>set_value\<close> left them. In the worlds of the handoff the inbox of a worker that is
  not impersonated can take a value.
\<close>

lemma try_impersonate_cases:
  "fst (try_impersonate w session) \<noteq> Blocked
   \<and> (impersonated (pimpl w) \<longrightarrow> try_impersonate w session = (Returned False, w, session))
   \<and> (\<not> impersonated (pimpl w) \<longrightarrow>
        (\<exists>r w' session'. try_impersonate w session = (r, w', session')
           \<and> impersonated (pimpl w')
           \<and> impersonated_task_result (pimpl w')
               = \<lparr>state_id = length (result_states w), future_retrieved = True\<rparr>
           \<and> length (result_states w') = Suc (length (result_states w))
           \<and> result_states w' ! length (result_states w) = NotReady
           \<and> session' = session\<lparr>thread := Some (holder (pimpl w)),
                                 result_future := Some (length (result_states w))\<rparr>
           \<and> impersonated_task (pimpl w') = impersonated_task (pimpl w)
           \<and> (inbox_open w \<longrightarrow>
                  r = Returned True
                \<and> task_states w'
                    = (task_states w)[state_id (impersonated_task (pimpl w))
                         := Ready (task session)]
                \<and> task_states w' ! state_id (impersonated_task (pimpl w'))
                    = Ready (task session))
           \<and> (\<not> inbox_open w \<longrightarrow>
                  (\<exists>x. r = Thrown x) \<and> task_states w' = task_states w)))
   \<and> (handoff_inv w \<and> \<not> impersonated (pimpl w) \<longrightarrow> inbox_open w)"
proof -
  have "handoff_inv w \<and> \<not> impersonated (pimpl w) \<longrightarrow> inbox_open w"
    by (simp add: handoff_inv_inbox_open)
  moreover have "fst (try_impersonate w session) \<noteq> Blocked"
    by (auto simp: try_impersonate_def Let_def split: if_splits sum.splits prod.splits)
  moreover have "impersonated (pimpl w) \<longrightarrow>
      try_impersonate w session = (Returned False, w, session)"
    by (simp add: try_impersonate_def Let_def)
  moreover have "\<not> impersonated (pimpl w) \<longrightarrow>
        (\<exists>r w' session'. try_impersonate w session = (r, w', session')
           \<and> impersonated (pimpl w')
           \<and> impersonated_task_result (pimpl w')
               = \<lparr>state_id = length (result_states w), future_retrieved = True\<rparr>
           \<and> length (result_states w') = Suc (length (result_states w))
           \<and> result_states w' ! length (result_states w) = NotReady
           \<and> session' = session\<lparr>thread := Some (holder (pimpl w)),
                                 result_future := Some (length (result_states w))\<rparr>
           \<and> impersonated_task (pimpl w') = impersonated_task (pimpl w)
           \<and> (inbox_open w \<longrightarrow>
                  r = Returned True
                \<and> task_states w'
                    = (task_states w)[state_id (impersonated_task (pimpl w))
                         := Ready (task session)]
                \<and> task_states w' ! state_id (impersonated_task (pimpl w'))
                    = Ready (task session))
           \<and> (\<not> inbox_open w \<longrightarrow>
                  (\<exists>x. r = Thrown x) \<and> task_states w' = task_states w))"
    by (auto simp: try_impersonate_def inbox_open_def Let_def
        atomic_compare_exchange_strong_def promise_assign_new_def promise_new_def
        promise_abandon_def promise_get_future_def promise_set_value_def nth_append
        split: if_splits sum.splits prod.splits shared_state.splits)
  ultimately show ?thesis by blast
qed

lemma try_impersonate_idle_then_busy:
  "handoff_inv idle_world \<and> \<not> impersonated (pimpl idle_world) \<and> inbox_open idle_world
   \<and> try_impersonate idle_world (new_session (Some 7))
       = (Returned True, busy_world, bound_session)
   \<and> impersonated (pimpl busy_world)
   \<and> try_impersonate busy_world (new_session (Some 8))
       = (Returned False, busy_world, new_session (Some 8))"
proof -
  have inv: "handoff_inv idle_world" "\<not> impersonated (pimpl idle_world)"
    by (simp_all add: handoff_inv_def idle_world_def)
  with try_impersonate_cases [of idle_world "new_session (Some 7)"]
  have "inbox_open idle_world" by blast
  have busy: "impersonated (pimpl busy_world)" by (simp add: busy_world_def)
  have ok: "try_impersonate idle_world (new_session (Some 7))
       = (Returned True, busy_world, bound_session)"
    by (simp add: try_impersonate_def idle_world_def busy_world_def
      bound_session_def new_session_def Let_def atomic_compare_exchange_strong_def
      promise_assign_new_def promise_new_def promise_abandon_def promise_get_future_def
      promise_set_value_def)
  from try_impersonate_cases [of busy_world "new_session (Some 8)"] busy
  have "try_impersonate busy_world (new_session (Some 8))
       = (Returned False, busy_world, new_session (Some 8))"
    by blast
  with inv ok busy \<open>inbox_open idle_world\<close> show ?thesis by simp
qed

text \<open>
  C1, at the input where the code departs from it. \<open>initialize_once\<close> leaves the
  constructed worker idle, waiting at its inbox. \<open>uninitialize_once\<close> then sets the null
  task in the inbox (line 29) without touching \<open>impersonated\<close>: until the worker's
  thread has taken the value, the worker is not impersonated and its inbox is full.
  A call of \<open>try_impersonate\<close> for the task 7 in that world flips \<open>impersonated\<close> to
  true by the compare-and-set, abandons the old outbox and installs a new one, binds the
  session to the worker and gives it the future of the new outbox, and then
  \<open>set_value\<close> throws \<open>promise_already_satisfied\<close>: the flag was flipped and the call
  did not succeed, it did not return false, and the session is bound. The inbox still
  holds the null task, and the worker stays impersonated for every later caller.
\<close>

theorem try_impersonate_after_shutdown_signal:
  "ThreadPimpl_initialize_once test_env constructed_world = Returned (kErrorCodeOk, idle_world)
   \<and> promise_set_value (impersonated_task (pimpl idle_world)) None (task_states idle_world)
       = Inr (task_states stopping_world)
   \<and> idle_world\<lparr>task_states := task_states stopping_world\<rparr> = stopping_world
   \<and> impersonated (pimpl stopping_world) = False
   \<and> try_impersonate stopping_world (new_session (Some 7))
       = (Thrown promise_already_satisfied, stranded_world, bound_session)
   \<and> impersonated (pimpl stranded_world) = True
   \<and> impersonated_task_result (pimpl stranded_world)
       = \<lparr>state_id = 1, future_retrieved = True\<rparr>
   \<and> result_states stranded_world = [BrokenPromise, NotReady]
   \<and> thread bound_session = Some (holder (pimpl stopping_world))
   \<and> result_future bound_session = Some 1
   \<and> task_states stranded_world = [Ready None]
   \<and> try_impersonate stranded_world (new_session (Some 8))
       = (Returned False, stranded_world, new_session (Some 8))"
proof -
  have init: "ThreadPimpl_initialize_once test_env constructed_world
      = Returned (kErrorCodeOk, idle_world)"
    by (simp add: ThreadPimpl_initialize_once_def test_env_def constructed_world_def
        idle_world_def prepend_def promise_get_future_def future_get_def)
  have signal: "promise_set_value (impersonated_task (pimpl idle_world)) None
      (task_states idle_world) = Inr (task_states stopping_world)"
    "idle_world\<lparr>task_states := task_states stopping_world\<rparr> = stopping_world"
    by (simp_all add: promise_set_value_def idle_world_def stopping_world_def)
  have call: "try_impersonate stopping_world (new_session (Some 7))
       = (Thrown promise_already_satisfied, stranded_world, bound_session)"
    by (simp add: try_impersonate_def stopping_world_def stranded_world_def
        bound_session_def new_session_def Let_def atomic_compare_exchange_strong_def
        promise_assign_new_def promise_new_def promise_abandon_def promise_get_future_def
        promise_set_value_def)
  have later: "try_impersonate stranded_world (new_session (Some 8))
       = (Returned False, stranded_world, new_session (Some 8))"
    by (simp add: try_impersonate_def stranded_world_def Let_def)
  have fields: "impersonated (pimpl stopping_world) = False"
    "impersonated (pimpl stranded_world) = True"
    "impersonated_task_result (pimpl stranded_world) = \<lparr>state_id = 1, future_retrieved = True\<rparr>"
    "result_states stranded_world = [BrokenPromise, NotReady]"
    "thread bound_session = Some (holder (pimpl stopping_world))"
    "result_future bound_session = Some 1"
    "task_states stranded_world = [Ready None]"
    by (simp_all add: stopping_world_def stranded_world_def bound_session_def)
  from init signal call later fields show ?thesis by simp
qed

lemma handoff_inv_value_received:
  assumes "handoff_inv w" and "worker w = AtGet fut" and "task_states w ! fut = Ready functor"
  shows "value_received w fut functor"
  using assms by (auto simp: handoff_inv_def value_received_def Let_def)

text \<open>
  The program order of an iteration of the worker loop whose wait ends with a value.
  The inbox is reset to a new promise right after the value is received. For a task the
  order is then: run the task, write its result to the outbox, clear \<open>impersonated\<close>,
  and wait at the new inbox; no snapshot of the trace shows \<open>impersonated\<close> cleared
  before the result is in the outbox, and the task runs in a world whose inbox is the new
  one. For the null value the loop breaks, \<open>exitted\<close> is stored and the statement
  \<open>std::atomic_thread_fence(std::memory_order_release)\<close> follows that store, and the
  thread has ended. What another thread may observe of these stores, and in which order,
  is a matter of the memory model of C++ and of the declaration of \<open>exitted_\<close>, which
  is not among the source files; the trace says nothing about it.
\<close>

lemma handle_tasks_iteration_order:
  assumes "value_received w fut functor"
  shows "(\<forall>t. functor = Some t \<longrightarrow>
           (\<exists>w2 w3 w4 w5 tr.
              handle_tasks env (AtGet fut) w
                = Returned (tr, w5\<lparr>worker := AtGet (length (task_states w))\<rparr>)
            \<and> tr = [(TaskReceived (Some t), w), (ResetInbox, w2),
                     (RunTask t (task_run env t (holder (pimpl w))), w2),
                     (SetResult (task_run env t (holder (pimpl w))), w3),
                     (ClearImpersonated, w4), (GetFuture, w5)]
            \<and> impersonated_task (pimpl w2)
                = \<lparr>state_id = length (task_states w), future_retrieved = False\<rparr>
            \<and> task_states w2 = task_states w @ [NotReady]
            \<and> result_states w2 = result_states w
            \<and> impersonated (pimpl w2)
            \<and> w3 = w2\<lparr>result_states :=
                        (result_states w)[state_id (impersonated_task_result (pimpl w))
                           := Ready (task_run env t (holder (pimpl w)))]\<rparr>
            \<and> result_states w3 ! state_id (impersonated_task_result (pimpl w3))
                = Ready (task_run env t (holder (pimpl w)))
            \<and> impersonated (pimpl w3)
            \<and> w4 = w3\<lparr>pimpl := (pimpl w3)\<lparr>impersonated := False\<rparr>\<rparr>
            \<and> w5 = w4\<lparr>pimpl := (pimpl w4)\<lparr>impersonated_task :=
                        \<lparr>state_id = length (task_states w), future_retrieved = True\<rparr>\<rparr>\<rparr>
            \<and> (\<forall>(ev, s) \<in> set tr. \<not> impersonated (pimpl s) \<longrightarrow>
                   result_states s ! state_id (impersonated_task_result (pimpl s))
                     = Ready (task_run env t (holder (pimpl w))))
            \<and> (\<forall>(ev, s) \<in> set tr. (\<exists>r. ev = RunTask t r) \<longrightarrow>
                   state_id (impersonated_task (pimpl s)) = length (task_states w)
                 \<and> task_states s ! length (task_states w) = NotReady)))
    \<and> (functor = None \<longrightarrow>
           (\<exists>w2 w3 w4.
              handle_tasks env (AtGet fut) w
                = Returned ([(TaskReceived None, w), (ResetInbox, w2), (Break, w2),
                             (SetExitted, w3), (ReleaseFence, w4)], w4)
            \<and> impersonated_task (pimpl w2)
                = \<lparr>state_id = length (task_states w), future_retrieved = False\<rparr>
            \<and> task_states w2 = task_states w @ [NotReady]
            \<and> result_states w2 = result_states w
            \<and> impersonated (pimpl w2) = impersonated (pimpl w)
            \<and> w3 = w2\<lparr>pimpl := (pimpl w2)\<lparr>exitted := True\<rparr>\<rparr>
            \<and> w4 = w3\<lparr>worker := Finished\<rparr>))"
  using assms
  by (auto simp: value_received_def Let_def prepend_def
      promise_assign_new_def promise_new_def promise_abandon_def promise_get_future_def
      promise_set_value_def future_get_def nth_append
      split: if_splits sum.splits prod.splits shared_state.splits option.splits outcome.splits)

lemma handle_tasks_iteration_order_example:
  "value_received busy_world 0 (Some 7)
   \<and> events_of (handle_tasks test_env (AtGet 0) busy_world)
       = [TaskReceived (Some 7), ResetInbox, RunTask 7 kErrorCodeOk, SetResult kErrorCodeOk,
          ClearImpersonated, GetFuture]
   \<and> world_of (handle_tasks test_env (AtGet 0) busy_world) = Some served_world
   \<and> value_received stopping_world 0 None
   \<and> events_of (handle_tasks test_env (AtGet 0) stopping_world)
       = [TaskReceived None, ResetInbox, Break, SetExitted, ReleaseFence]"
proof -
  have v: "value_received busy_world 0 (Some 7)" "value_received stopping_world 0 None"
    by (simp_all add: value_received_def busy_world_def stopping_world_def)
  note thm1 = handle_tasks_iteration_order [OF v(1), of test_env]
  note thm2 = handle_tasks_iteration_order [OF v(2), of test_env]
  have w: "world_of (handle_tasks test_env (AtGet 0) busy_world) = Some served_world"
    by (simp add: busy_world_def served_world_def test_env_def
      world_of_def Let_def prepend_def
      promise_assign_new_def promise_new_def promise_abandon_def promise_get_future_def
      promise_set_value_def future_get_def)
  from thm1 have e1: "events_of (handle_tasks test_env (AtGet 0) busy_world)
       = [TaskReceived (Some 7), ResetInbox, RunTask 7 (task_run test_env 7 (holder (pimpl busy_world))),
          SetResult (task_run test_env 7 (holder (pimpl busy_world))), ClearImpersonated, GetFuture]"
    by (auto simp: events_of_def)
  from thm2 have e2: "events_of (handle_tasks test_env (AtGet 0) stopping_world)
       = [TaskReceived None, ResetInbox, Break, SetExitted, ReleaseFence]"
    by (auto simp: events_of_def)
  have "task_run test_env 7 (holder (pimpl busy_world)) = kErrorCodeOk"
    by (simp add: test_env_def)
  with v w e1 e2 show ?thesis by simp
qed

lemma uninitialize_once_returns:
  assumes "ThreadPimpl_uninitialize_once env w = Returned (e, w')"
  shows "e = kErrorCodeOk \<and> raw_thread (pimpl w') = None \<and> core_memory (pimpl w') = None"
  using assms
  by (auto simp: ThreadPimpl_uninitialize_once_def Let_def
      split: if_splits sum.splits outcome.splits prod.splits)

lemma uninitialize_once_null_thread:
  assumes "raw_thread (pimpl w) = None"
  shows "ThreadPimpl_uninitialize_once env w
           = Returned (kErrorCodeOk, w\<lparr>pimpl := (pimpl w)\<lparr>core_memory := None\<rparr>\<rparr>)"
  using assms by (simp add: ThreadPimpl_uninitialize_once_def)

text \<open>
  C10. A call of \<open>uninitialize_once\<close> that returns, returns ok and leaves the thread and
  core-memory handles null, and a call on the world it leaves returns ok and changes
  nothing. With a null thread handle the call only nulls the core-memory handle. On an idle
  worker with a live thread the first call sets the null task in the inbox, the thread
  takes it, breaks out of the loop and ends, and the join returns.
\<close>

theorem uninitialize_once_idempotent:
  "(\<forall>e w'. ThreadPimpl_uninitialize_once env w = Returned (e, w') \<longrightarrow>
        e = kErrorCodeOk \<and> raw_thread (pimpl w') = None \<and> core_memory (pimpl w') = None
      \<and> ThreadPimpl_uninitialize_once env w' = Returned (kErrorCodeOk, w'))
   \<and> (raw_thread (pimpl w) = None \<longrightarrow>
        ThreadPimpl_uninitialize_once env w
          = Returned (kErrorCodeOk, w\<lparr>pimpl := (pimpl w)\<lparr>core_memory := None\<rparr>\<rparr>))
   \<and> (handoff_inv w \<and> raw_thread (pimpl w) \<noteq> None \<and> \<not> impersonated (pimpl w)
        \<and> worker w \<noteq> Finished \<longrightarrow>
        (\<exists>w1 w2 tr.
           ThreadPimpl_uninitialize_once env w
             = Returned (kErrorCodeOk,
                 w2\<lparr>pimpl := (pimpl w2)\<lparr>raw_thread := None, core_memory := None\<rparr>\<rparr>)
         \<and> w1 = w\<lparr>task_states :=
                     (task_states w)[state_id (impersonated_task (pimpl w)) := Ready None]\<rparr>
         \<and> handle_tasks env (worker w) w1 = Returned (tr, w2)
         \<and> map fst tr = [TaskReceived None, ResetInbox, Break, SetExitted, ReleaseFence]
         \<and> worker w2 = Finished \<and> exitted (pimpl w2)))"
proof (intro conjI allI impI)
  fix e w'
  assume r: "ThreadPimpl_uninitialize_once env w = Returned (e, w')"
  note u = uninitialize_once_returns [OF r]
  from u show "e = kErrorCodeOk" "raw_thread (pimpl w') = None" "core_memory (pimpl w') = None"
    by simp_all
  from u show "ThreadPimpl_uninitialize_once env w' = Returned (kErrorCodeOk, w')"
    by (simp add: uninitialize_once_null_thread)
next
  assume "raw_thread (pimpl w) = None"
  then show "ThreadPimpl_uninitialize_once env w
          = Returned (kErrorCodeOk, w\<lparr>pimpl := (pimpl w)\<lparr>core_memory := None\<rparr>\<rparr>)"
    by (rule uninitialize_once_null_thread)
next
  assume a: "handoff_inv w \<and> raw_thread (pimpl w) \<noteq> None \<and> \<not> impersonated (pimpl w)
        \<and> worker w \<noteq> Finished"
  then obtain fut where fut: "worker w = AtGet fut"
    by (cases "worker w") (auto simp: handoff_inv_def Let_def)
  with a show "\<exists>w1 w2 tr.
           ThreadPimpl_uninitialize_once env w
             = Returned (kErrorCodeOk,
                 w2\<lparr>pimpl := (pimpl w2)\<lparr>raw_thread := None, core_memory := None\<rparr>\<rparr>)
         \<and> w1 = w\<lparr>task_states :=
                     (task_states w)[state_id (impersonated_task (pimpl w)) := Ready None]\<rparr>
         \<and> handle_tasks env (worker w) w1 = Returned (tr, w2)
         \<and> map fst tr = [TaskReceived None, ResetInbox, Break, SetExitted, ReleaseFence]
         \<and> worker w2 = Finished \<and> exitted (pimpl w2)"
    by (auto simp: handoff_inv_def Let_def prepend_def ThreadPimpl_uninitialize_once_def
      promise_assign_new_def promise_new_def promise_abandon_def promise_get_future_def
      promise_set_value_def future_get_def nth_append
      split: if_splits sum.splits prod.splits shared_state.splits option.splits outcome.splits)
qed

theorem uninitialize_once_idempotent_witness:
  "handoff_inv idle_world \<and> raw_thread (pimpl idle_world) \<noteq> None
   \<and> \<not> impersonated (pimpl idle_world) \<and> worker idle_world \<noteq> Finished
   \<and> ThreadPimpl_uninitialize_once test_env idle_world = Returned (kErrorCodeOk, stopped_world)
   \<and> ThreadPimpl_uninitialize_once test_env stopped_world = Returned (kErrorCodeOk, stopped_world)
   \<and> raw_thread (pimpl stopped_world) = None"
proof -
  have pre: "handoff_inv idle_world" "raw_thread (pimpl idle_world) \<noteq> None"
    "\<not> impersonated (pimpl idle_world)" "worker idle_world \<noteq> Finished"
    by (simp_all add: handoff_inv_def idle_world_def)
  have first: "ThreadPimpl_uninitialize_once test_env idle_world
      = Returned (kErrorCodeOk, stopped_world)"
    by (simp add: idle_world_def stopped_world_def test_env_def Let_def prepend_def
      ThreadPimpl_uninitialize_once_def
      promise_assign_new_def promise_new_def promise_abandon_def promise_get_future_def
      promise_set_value_def future_get_def)
  from uninitialize_once_idempotent [of test_env idle_world] first
  have "ThreadPimpl_uninitialize_once test_env stopped_world = Returned (kErrorCodeOk, stopped_world)"
    and "raw_thread (pimpl stopped_world) = None"
    by blast+
  with pre first show ?thesis by simp
qed

section \<open>Properties of the commit conflict test\<close>

lemma run_ok:
  assumes "\<not> is_error (fst (try_transaction env offset amount s))"
  shows "TestTask_run env offset amount s
       = Some (Returned (kErrorCodeOk, snd (try_transaction env offset amount s)))"
proof -
  obtain e s1 where t: "try_transaction env offset amount s = (e, s1)"
    by (cases "try_transaction env offset amount s")
  with assms show ?thesis by (subst TestTask_run.simps) simp
qed

lemma run_fatal:
  assumes "is_error (fst (try_transaction env offset amount s))"
    and "fst (try_transaction env offset amount s) \<noteq> ERROR_CODE_XCT_RACE_ABORT"
  shows "TestTask_run env offset amount s
       = Some (Fatal (fst (try_transaction env offset amount s)))"
proof -
  obtain e s1 where t: "try_transaction env offset amount s = (e, s1)"
    by (cases "try_transaction env offset amount s")
  with assms show ?thesis by (subst TestTask_run.simps) simp
qed

lemma run_retry:
  assumes "after_race env offset amount s = Some s'"
  shows "TestTask_run env offset amount s = TestTask_run env offset amount s'"
proof -
  obtain e s1 where t: "try_transaction env offset amount s = (e, s1)"
    by (cases "try_transaction env offset amount s")
  obtain e2 c2 where a: "abort_xct env (fst s1) = (e2, c2)"
    by (cases "abort_xct env (fst s1)")
  from assms t a show ?thesis
    by (subst TestTask_run.simps)
       (auto simp: after_race_def is_error_def split: if_splits)
qed

lemma run_abort_failed:
  assumes "try_transaction env offset amount s = (ERROR_CODE_XCT_RACE_ABORT, s1)"
    and "is_running_xct env (fst s1)"
    and "abort_xct env (fst s1) = (e, c2)" and "is_error e"
  shows "TestTask_run env offset amount s = Some (Returned (e, (c2, snd s1)))"
  using assms by (subst TestTask_run.simps) (simp add: is_error_def)

lemma run_retries:
  "after_races env offset amount n s = Some s' \<Longrightarrow>
     TestTask_run env offset amount s = TestTask_run env offset amount s'"
proof (induction n arbitrary: s)
  case 0
  then show ?case by simp
next
  case (Suc n)
  then obtain s1 where s1: "after_race env offset amount s = Some s1"
    and rest: "after_races env offset amount n s1 = Some s'"
    by (auto split: option.splits)
  from run_retry [OF s1] Suc.IH [OF rest] show ?case by simp
qed

lemma run_never_race_aux:
  assumes "TestTask_run env offset amount s = Some y"
  shows "(\<forall>c. is_running_xct env c \<longrightarrow> fst (abort_xct env c) \<noteq> ERROR_CODE_XCT_RACE_ABORT) \<longrightarrow>
      (\<forall>e s'. y = Returned (e, s') \<longrightarrow> e \<noteq> ERROR_CODE_XCT_RACE_ABORT)"
proof (rule TestTask_run.raw_induct
    [where P = "\<lambda>env offset amount s y.
       (\<forall>c. is_running_xct env c \<longrightarrow> fst (abort_xct env c) \<noteq> ERROR_CODE_XCT_RACE_ABORT) \<longrightarrow>
       (\<forall>e s'. y = Returned (e, s') \<longrightarrow> e \<noteq> ERROR_CODE_XCT_RACE_ABORT)", OF _ assms])
  fix run :: "'a Collaborators \<Rightarrow> 64 word \<Rightarrow> 64 word \<Rightarrow> 'a \<times> nat
       \<Rightarrow> (ErrorCode \<times> ('a \<times> nat)) outcome option"
  fix env offset amount s y
  assume IH: "\<And>env offset amount s y. run env offset amount s = Some y \<Longrightarrow>
       (\<forall>c. is_running_xct env c \<longrightarrow> fst (abort_xct env c) \<noteq> ERROR_CODE_XCT_RACE_ABORT) \<longrightarrow>
       (\<forall>e s'. y = Returned (e, s') \<longrightarrow> e \<noteq> ERROR_CODE_XCT_RACE_ABORT)"
    and body: "(case try_transaction env offset amount s of (error_stack, s1) \<Rightarrow>
        if \<not> is_error error_stack then Some (Returned (kErrorCodeOk, s1))
        else if error_stack = ERROR_CODE_XCT_RACE_ABORT
        then
          (if is_running_xct env (fst s1)
           then (case abort_xct env (fst s1) of (e, c2) \<Rightarrow>
                   if is_error e then Some (Returned (e, (c2, snd s1)))
                   else run env offset amount (c2, snd s1))
           else run env offset amount s1)
        else Some (Fatal error_stack)) = Some y"
  obtain e s1 where t: "try_transaction env offset amount s = (e, s1)"
    by (cases "try_transaction env offset amount s")
  obtain e2 c2 where a: "abort_xct env (fst s1) = (e2, c2)"
    by (cases "abort_xct env (fst s1)")
  show "(\<forall>c. is_running_xct env c \<longrightarrow> fst (abort_xct env c) \<noteq> ERROR_CODE_XCT_RACE_ABORT) \<longrightarrow>
       (\<forall>e s'. y = Returned (e, s') \<longrightarrow> e \<noteq> ERROR_CODE_XCT_RACE_ABORT)"
  proof (intro impI allI)
    fix e' s'
    assume ab: "\<forall>c. is_running_xct env c \<longrightarrow> fst (abort_xct env c) \<noteq> ERROR_CODE_XCT_RACE_ABORT"
      and y: "y = Returned (e', s')"
    from body t a y
    consider "e' = kErrorCodeOk"
      | "is_running_xct env (fst s1)" "e' = e2"
      | "run env offset amount (c2, snd s1) = Some y"
      | "run env offset amount s1 = Some y"
      by (auto split: if_splits)
    then show "e' \<noteq> ERROR_CODE_XCT_RACE_ABORT"
    proof cases
      case 1 then show ?thesis by simp
    next
      case 2 with ab a show ?thesis by (metis fst_conv)
    next
      case 3 from IH [OF 3] ab y show ?thesis by blast
    next
      case 4 from IH [OF 4] ab y show ?thesis by blast
    qed
  qed
qed


lemma serial_attempt_race:
  assumes "quiet c" and "unat offset < length (table c)" and "races c = Suc k # rest"
    and "payload_id (table c ! unat offset) = offset"
  shows "try_transaction serial_engine offset amount (c, f)
           = (ERROR_CODE_XCT_RACE_ABORT, (c\<lparr>races := k # rest\<rparr>, f))"
  using assms
  by (simp add: try_transaction_def serial_engine_def serial_begin_xct_def serial_get_record_def
      serial_overwrite_record_def serial_precommit_xct_def quiet_def is_error_def Let_def)

lemma serial_attempt_commit:
  assumes "quiet c" and "unat offset < length (table c)" and "races c = [] \<or> hd (races c) = 0"
    and "payload_id (table c ! unat offset) = offset"
  shows "try_transaction serial_engine offset amount (c, f)
           = (kErrorCodeOk, (c\<lparr>table := increment (table c) (unat offset) amount,
                                 races := tl (races c)\<rparr>, f))"
  using assms
  by (cases "races c")
     (auto simp: try_transaction_def serial_engine_def serial_begin_xct_def serial_get_record_def
      serial_overwrite_record_def serial_precommit_xct_def quiet_def is_error_def Let_def
      apply_writes_def increment_def split: nat.splits)

lemma serial_run:
  assumes "quiet c" and "unat offset < length (table c)"
    and "payload_id (table c ! unat offset) = offset"
  shows "TestTask_run serial_engine offset amount (c, f)
           = Some (Returned (kErrorCodeOk,
               (c\<lparr>table := increment (table c) (unat offset) amount, races := tl (races c)\<rparr>, f)))"
proof (cases "races c")
  case Nil
  with serial_attempt_commit [OF assms(1,2) _ assms(3), of amount f] run_ok [of serial_engine offset amount "(c, f)"]
  show ?thesis by (simp add: is_error_def)
next
  case (Cons k rest)
  with assms show ?thesis
  proof (induction k arbitrary: c)
    case 0
    with serial_attempt_commit [of c offset amount f] run_ok [of serial_engine offset amount "(c, f)"]
    show ?case by (simp add: is_error_def)
  next
    case (Suc k)
    let ?c = "c\<lparr>races := k # rest\<rparr>"
    from Suc.prems have t: "try_transaction serial_engine offset amount (c, f)
           = (ERROR_CODE_XCT_RACE_ABORT, (?c, f))"
      by (intro serial_attempt_race) simp_all
    from Suc.prems have "\<not> is_running_xct serial_engine ?c"
      by (simp add: serial_engine_def quiet_def)
    with t have "after_race serial_engine offset amount (c, f) = Some (?c, f)"
      by (simp add: after_race_def)
    from run_retry [OF this]
    have "TestTask_run serial_engine offset amount (c, f)
        = TestTask_run serial_engine offset amount (?c, f)" .
    also from Suc.prems have "\<dots> = Some (Returned (kErrorCodeOk,
               (?c\<lparr>table := increment (table ?c) (unat offset) amount, races := tl (races ?c)\<rparr>, f)))"
      by (intro Suc.IH) (simp_all add: quiet_def)
    finally show ?case using Suc.prems by simp
  qed
qed


lemma increment_length [simp]: "length (increment t offset amount) = length t"
  by (simp add: increment_def)

lemma increment_ids: "ids_in_place t \<Longrightarrow> ids_in_place (increment t offset amount)"
proof -
  assume a: "ids_in_place t"
  show ?thesis
    unfolding ids_in_place_def
  proof (intro allI impI)
    fix r assume "r < length (increment t offset amount)"
    then have r: "r < length t" by simp
    show "payload_id (increment t offset amount ! r) = of_nat r"
    proof (cases "r = offset")
      case True
      with r a show ?thesis by (simp add: increment_def ids_in_place_def)
    next
      case False
      with r a show ?thesis by (simp add: increment_def ids_in_place_def)
    qed
  qed
qed

lemma increment_nth:
  "r < length t \<Longrightarrow>
     increment t offset amount ! r
       = (if r = offset then (t ! r)\<lparr>payload_data := payload_data (t ! r) + amount\<rparr> else t ! r)"
  by (cases "r = offset") (simp_all add: increment_def)

lemma unat_small: "n < 10 \<Longrightarrow> unat (of_nat n :: 64 word) = n"
  by (simp add: unat_of_nat)

lemma serial_run_tasks:
  assumes "quiet c" and "length (table c) = 10" and "ids_in_place (table c)"
    and "\<forall>i \<in> set order. assign_func i < 10"
  shows "run_tasks serial_engine assign_func order (c, f)
           = Some (Returned (c\<lparr>table := apply_tasks assign_func order (table c),
                               races := drop (length order) (races c)\<rparr>, f))"
  using assms
proof (induction order arbitrary: c)
  case Nil
  then show ?case by simp
next
  case (Cons i rest)
  let ?off = "of_nat (assign_func i) :: 64 word"
  let ?am = "of_nat (i * 20 + 4) :: 64 word"
  from Cons.prems have a: "assign_func i < 10" by simp
  then have u: "unat ?off = assign_func i" by (rule unat_small)
  let ?c = "c\<lparr>table := increment (table c) (assign_func i) ?am, races := tl (races c)\<rparr>"
  from Cons.prems a u have "TestTask_run serial_engine ?off ?am (c, f)
      = Some (Returned (kErrorCodeOk,
          (c\<lparr>table := increment (table c) (unat ?off) ?am, races := tl (races c)\<rparr>, f)))"
    by (intro serial_run) (simp_all add: ids_in_place_def)
  with u have r: "TestTask_run serial_engine ?off ?am (c, f) = Some (Returned (kErrorCodeOk, (?c, f)))"
    by simp
  from Cons.prems have "run_tasks serial_engine assign_func rest (?c, f)
           = Some (Returned (?c\<lparr>table := apply_tasks assign_func rest (table ?c),
                               races := drop (length rest) (races ?c)\<rparr>, f))"
    by (intro Cons.IH) (simp_all add: quiet_def increment_ids)
  with r show ?case by (simp add: is_error_def drop_Suc)
qed

lemma apply_tasks_length [simp]: "length (apply_tasks assign_func order t) = length t"
  by (induction order arbitrary: t) simp_all

lemma amount_for_Cons:
  "amount_for assign_func r (i # rest)
     = (if assign_func i = r then i * 20 + 4 else 0) + amount_for assign_func r rest"
  by (simp add: amount_for_def)

lemma apply_tasks_nth:
  "r < length t \<Longrightarrow>
     apply_tasks assign_func order t ! r
       = (t ! r)\<lparr>payload_data := payload_data (t ! r) + of_nat (amount_for assign_func r order)\<rparr>"
proof (induction order arbitrary: t)
  case Nil
  then show ?case by (simp add: amount_for_def)
next
  case (Cons i rest)
  let ?t = "increment t (assign_func i) (of_nat (i * 20 + 4))"
  from Cons.prems have r: "r < length ?t" by simp
  have "apply_tasks assign_func (i # rest) t ! r = apply_tasks assign_func rest ?t ! r"
    by simp
  also from Cons.IH [OF r] have "\<dots> = (?t ! r)\<lparr>payload_data := payload_data (?t ! r)
        + of_nat (amount_for assign_func r rest)\<rparr>" .
  also have "\<dots> = (t ! r)\<lparr>payload_data := payload_data (t ! r)
        + of_nat (amount_for assign_func r (i # rest))\<rparr>"
  proof (cases "assign_func i = r")
    case True
    with Cons.prems show ?thesis
      by (simp only: increment_nth amount_for_Cons) (simp add: add.assoc)
  next
    case False
    with Cons.prems show ?thesis
      by (simp only: increment_nth amount_for_Cons) simp
  qed
  finally show ?case .
qed

lemma amount_for_permutation:
  assumes "mset order = mset order'"
  shows "amount_for assign_func r order = amount_for assign_func r order'"
proof -
  let ?g = "\<lambda>i. if assign_func i = r then i * 20 + 4 else 0"
  have "sum_list (map ?g order) = sum_mset (image_mset ?g (mset order))"
    by (simp add: sum_mset_sum_list [symmetric])
  also have "\<dots> = sum_mset (image_mset ?g (mset order'))" by (simp add: assms)
  also have "\<dots> = sum_list (map ?g order')"
    by (simp add: sum_mset_sum_list [symmetric])
  finally show ?thesis by (simp add: amount_for_def)
qed


lemma serial_init_records:
  assumes "xct_active c" and "\<forall>i \<in> set is. i < length (table c)" and "length (table c) \<le> 10"
  shows "InitTask_records serial_engine is c
           = (kErrorCodeOk,
              c\<lparr>write_set := write_set c
                   @ map (\<lambda>i. (i, \<lparr>payload_id = of_nat i, payload_data = 0\<rparr>)) is\<rparr>)"
  using assms
proof (induction "is" arbitrary: c)
  case Nil
  then show ?case by simp
next
  case (Cons i rest)
  then have "i < 10" by simp
  then have u: "unat (of_nat i :: 64 word) = i" by (rule unat_small)
  let ?c = "c\<lparr>write_set := write_set c @ [(i, \<lparr>payload_id = of_nat i, payload_data = 0\<rparr>)]\<rparr>"
  from Cons.prems u have step: "overwrite_record serial_engine c (of_nat i)
      \<lparr>payload_id = of_nat i, payload_data = 0\<rparr> = (kErrorCodeOk, ?c)"
    by (simp add: serial_engine_def serial_overwrite_record_def)
  from Cons.prems have "InitTask_records serial_engine rest ?c
      = (kErrorCodeOk, ?c\<lparr>write_set := write_set ?c
            @ map (\<lambda>i. (i, \<lparr>payload_id = of_nat i, payload_data = 0\<rparr>)) rest\<rparr>)"
    by (intro Cons.IH) simp_all
  with step show ?case by (simp add: is_error_def)
qed

lemma apply_writes_Cons: "apply_writes ((i, p) # ws) t = apply_writes ws (t[i := p])"
  by (simp add: apply_writes_def)

lemma apply_writes_length [simp]: "length (apply_writes ws t) = length t"
  by (induction ws arbitrary: t) (auto simp: apply_writes_def)

lemma apply_writes_nth:
  assumes "distinct is" and "r < length t"
  shows "apply_writes (map (\<lambda>i. (i, P i)) is) t ! r = (if r \<in> set is then P r else t ! r)"
  using assms
proof (induction "is" arbitrary: t)
  case Nil
  then show ?case by (simp add: apply_writes_def)
next
  case (Cons i rest)
  from Cons.prems have "apply_writes (map (\<lambda>i. (i, P i)) rest) (t[i := P i]) ! r
      = (if r \<in> set rest then P r else t[i := P i] ! r)"
    by (intro Cons.IH) simp_all
  with Cons.prems show ?case
    by (cases "r = i") (auto simp: apply_writes_Cons)
qed

lemma apply_writes_all:
  "apply_writes (map (\<lambda>i. (i, P i)) [0..<n]) (replicate n z) = map P [0..<n]"
  by (rule nth_equalityI) (simp_all add: apply_writes_nth)

lemma serial_InitTask_run:
  "InitTask_run serial_engine (started_engine ks)
     = (kErrorCodeOk,
        \<lparr>table = initial_table, xct_active = False, write_set = [], races = take 10 ks\<rparr>)"
proof -
  let ?z = "\<lparr>payload_id = 0, payload_data = 0\<rparr> :: Payload"
  let ?c2 = "\<lparr>table = replicate 10 ?z, xct_active = True, write_set = [],
             races = 0 # take 10 ks\<rparr>"
  have "InitTask_records serial_engine [0..<10] ?c2
      = (kErrorCodeOk, ?c2\<lparr>write_set := write_set ?c2
            @ map (\<lambda>i. (i, \<lparr>payload_id = of_nat i, payload_data = 0\<rparr>)) [0..<10]\<rparr>)"
    by (intro serial_init_records) simp_all
  then show ?thesis
    by (simp add: InitTask_run_def started_engine_def RECORDS_def serial_engine_def
        serial_create_array_def serial_begin_xct_def serial_precommit_xct_def is_error_def
        apply_writes_all initial_table_def)
qed

lemma compute_answers_sums:
  assumes "\<forall>i \<in> set is. assign_func i < length answers"
  shows "compute_answers assign_func is answers
           = Some (map (\<lambda>r. answers ! r + of_nat (amount_for assign_func r is))
                     [0..<length answers])"
  using assms
proof (induction "is" arbitrary: answers)
  case Nil
  then show ?case by (simp add: amount_for_def map_nth)
next
  case (Cons i rest)
  let ?a = "answers[assign_func i := answers ! assign_func i + of_nat (i * 20 + 4)]"
  from Cons.prems have "compute_answers assign_func rest ?a
      = Some (map (\<lambda>r. ?a ! r + of_nat (amount_for assign_func r rest)) [0..<length ?a])"
    by (intro Cons.IH) simp
  moreover have "map (\<lambda>r. ?a ! r + of_nat (amount_for assign_func r rest)) [0..<length ?a]
      = map (\<lambda>r. answers ! r + of_nat (amount_for assign_func r (i # rest))) [0..<length answers]"
    by (rule nth_equalityI) (auto simp: amount_for_Cons nth_list_update add.assoc)
  ultimately show ?case using Cons.prems by simp
qed

lemma serial_get_all_records:
  assumes "xct_active c" and "\<forall>i \<in> set is. i < length (table c)" and "length (table c) \<le> 10"
  shows "GetAllRecordsTask_records serial_engine is out c
           = (kErrorCodeOk, out @ map (\<lambda>i. table c ! i) is, c)"
  using assms
proof (induction "is" arbitrary: out)
  case Nil
  then show ?case by simp
next
  case (Cons i rest)
  then have "i < 10" by simp
  then have u: "unat (of_nat i :: 64 word) = i" by (rule unat_small)
  from Cons.prems u have step: "get_record serial_engine c (of_nat i)
      = (kErrorCodeOk, table c ! i, c)"
    by (simp add: serial_engine_def serial_get_record_def)
  from Cons.prems have "GetAllRecordsTask_records serial_engine rest (out @ [table c ! i]) c
      = (kErrorCodeOk, (out @ [table c ! i]) @ map (\<lambda>i. table c ! i) rest, c)"
    by (intro Cons.IH) simp_all
  with step show ?case by (simp add: is_error_def)
qed

lemma serial_GetAllRecordsTask_run:
  assumes "quiet c" and "length (table c) = 10" and "races c = []"
  shows "GetAllRecordsTask_run serial_engine c = (kErrorCodeOk, table c, c)"
proof -
  let ?c1 = "c\<lparr>xct_active := True, write_set := []\<rparr>"
  from assms have "GetAllRecordsTask_records serial_engine [0..<10] [] ?c1
      = (kErrorCodeOk, [] @ map (\<lambda>i. table ?c1 ! i) [0..<10], ?c1)"
    by (intro serial_get_all_records) simp_all
  moreover from assms have "map (\<lambda>i. table c ! i) [0..<10] = table c"
    by (metis map_nth)
  ultimately show ?thesis using assms
    by (simp add: GetAllRecordsTask_run_def RECORDS_def serial_engine_def serial_begin_xct_def
        serial_precommit_xct_def is_error_def quiet_def apply_writes_def)
qed

lemma failed_expectations_none:
  assumes "\<forall>i \<in> set is. payload_id (payloads ! i) = of_nat i \<and> answers ! i = payload_data (payloads ! i)"
  shows "failed_expectations is answers payloads = 0"
  using assms by (induction "is") simp_all

lemma perm_length: "mset order = mset [0..<10] \<Longrightarrow> length order = 10"
  by (metis length_upt minus_nat.diff_0 size_mset)

lemma perm_set: "mset order = mset [0..<10] \<Longrightarrow> set order = {0..<10}"
  by (metis set_mset_mset set_upt)

lemma expected_data_amount: "expected_data assign_func r = of_nat (amount_for assign_func r [0..<10])"
  by (simp add: expected_data_def amount_for_def)

lemma final_table_expected:
  assumes "mset order = mset [0..<10]"
  shows "apply_tasks assign_func order initial_table = expected_table assign_func"
proof (rule nth_equalityI)
  show "length (apply_tasks assign_func order initial_table) = length (expected_table assign_func)"
    by (simp add: initial_table_def expected_table_def)
next
  fix r assume "r < length (apply_tasks assign_func order initial_table)"
  then have r: "r < 10" by (simp add: initial_table_def)
  then have r': "r < length initial_table" by (simp add: initial_table_def)
  from amount_for_permutation [OF assms]
  have "amount_for assign_func r order = amount_for assign_func r [0..<10]" .
  moreover from r have "initial_table ! r = \<lparr>payload_id = of_nat r, payload_data = 0\<rparr>"
    by (simp add: initial_table_def)
  moreover from r have "expected_table assign_func ! r
      = \<lparr>payload_id = of_nat r, payload_data = of_nat (amount_for assign_func r [0..<10])\<rparr>"
    by (simp add: expected_table_def expected_data_amount)
  ultimately show "apply_tasks assign_func order initial_table ! r = expected_table assign_func ! r"
    by (simp add: apply_tasks_nth [OF r'])
qed

lemma answers_expected:
  assumes "\<forall>i < 10. assign_func i < 10"
  shows "compute_answers assign_func [0..<THREADS] (replicate THREADS 0)
           = Some (map (expected_data assign_func) [0..<10])"
proof -
  from assms have "compute_answers assign_func [0..<10] (replicate 10 0)
      = Some (map (\<lambda>r. replicate 10 (0 :: 64 word) ! r + of_nat (amount_for assign_func r [0..<10]))
                [0..<length (replicate 10 (0 :: 64 word))])"
    by (intro compute_answers_sums) simp
  moreover have "map (\<lambda>r. replicate 10 (0 :: 64 word) ! r + of_nat (amount_for assign_func r [0..<10]))
                [0..<length (replicate 10 (0 :: 64 word))] = map (expected_data assign_func) [0..<10]"
    by (rule nth_equalityI) (simp_all add: expected_data_amount)
  ultimately show ?thesis by (simp add: THREADS_def)
qed

lemma run_test_serial:
  assumes perm: "mset order = mset [0..<10]" and range: "\<forall>i < 10. assign_func i < 10"
  shows "run_test serial_engine assign_func order (started_engine ks)
           = Some (Returned (expected_table assign_func, 0))"
proof -
  let ?c1 = "\<lparr>table = initial_table, xct_active = False, write_set = [], races = take 10 ks\<rparr>"
  let ?c2 = "?c1\<lparr>table := apply_tasks assign_func order (table ?c1),
                  races := drop (length order) (races ?c1)\<rparr>"
  have init: "InitTask_run serial_engine (started_engine ks) = (kErrorCodeOk, ?c1)"
    by (rule serial_InitTask_run)
  have ids: "ids_in_place initial_table"
    by (simp add: ids_in_place_def initial_table_def)
  from perm range have "\<forall>i \<in> set order. assign_func i < 10"
    by (simp add: perm_set)
  with ids have tasks: "run_tasks serial_engine assign_func order (?c1, 0) = Some (Returned (?c2, 0))"
    by (intro serial_run_tasks) (simp_all add: quiet_def initial_table_def)
  have c2: "?c2 = \<lparr>table = expected_table assign_func, xct_active = False, write_set = [],
                  races = []\<rparr>"
    using perm by (simp add: final_table_expected perm_length)
  have get: "GetAllRecordsTask_run serial_engine ?c2 = (kErrorCodeOk, table ?c2, ?c2)"
    unfolding c2 by (intro serial_GetAllRecordsTask_run) (simp_all add: quiet_def expected_table_def)
  have "failed_expectations [0..<THREADS] (map (expected_data assign_func) [0..<10])
          (expected_table assign_func) = 0"
    by (intro failed_expectations_none) (simp add: THREADS_def expected_table_def)
  with init tasks get c2 answers_expected [OF range] show ?thesis
    by (simp add: run_test_def is_error_def)
qed

lemma upt10: "[0..<10] = [0, 1, 2, 3, 4, 5, 6, 7, 8, 9]"
  by (simp add: upt_rec)

lemma extreme_expected: "expected_table extreme_assign = extreme_table"
  by (simp add: expected_table_def expected_data_def extreme_assign_def extreme_table_def upt10)

lemma light_expected: "expected_table light_assign = light_table"
  by (simp add: expected_table_def expected_data_def light_assign_def light_table_def upt10)

text \<open>
  C2. The loop of \<open>TestTask::run\<close>, for any transaction manager and storage. A round
  whose \<open>try_transaction\<close> is ok ends the loop and the task returns ok. A round that ends
  in the race abort is followed by another round, after \<open>abort_xct\<close> when the
  transaction is still running. Any other error stops the task at once with that error
  (\<open>COERCE_ERROR\<close>). After any number of race-aborted rounds an ok round makes the task
  return ok. And when \<open>abort_xct\<close> on a running transaction does not itself return the
  race abort, the task never returns it.
\<close>

theorem retry_driver:
  "(\<not> is_error (fst (try_transaction env offset amount s)) \<longrightarrow>
      TestTask_run env offset amount s
        = Some (Returned (kErrorCodeOk, snd (try_transaction env offset amount s))))
   \<and> (fst (try_transaction env offset amount s) = ERROR_CODE_XCT_RACE_ABORT
        \<and> is_running_xct env (fst (snd (try_transaction env offset amount s)))
        \<and> \<not> is_error (fst (abort_xct env (fst (snd (try_transaction env offset amount s))))) \<longrightarrow>
      TestTask_run env offset amount s
        = TestTask_run env offset amount
            (snd (abort_xct env (fst (snd (try_transaction env offset amount s)))),
             snd (snd (try_transaction env offset amount s))))
   \<and> (fst (try_transaction env offset amount s) = ERROR_CODE_XCT_RACE_ABORT
        \<and> \<not> is_running_xct env (fst (snd (try_transaction env offset amount s))) \<longrightarrow>
      TestTask_run env offset amount s
        = TestTask_run env offset amount (snd (try_transaction env offset amount s)))
   \<and> (is_error (fst (try_transaction env offset amount s))
        \<and> fst (try_transaction env offset amount s) \<noteq> ERROR_CODE_XCT_RACE_ABORT \<longrightarrow>
      TestTask_run env offset amount s
        = Some (Fatal (fst (try_transaction env offset amount s))))
   \<and> (\<forall>n s'. after_races env offset amount n s = Some s'
        \<and> \<not> is_error (fst (try_transaction env offset amount s')) \<longrightarrow>
      TestTask_run env offset amount s
        = Some (Returned (kErrorCodeOk, snd (try_transaction env offset amount s'))))
   \<and> ((\<forall>c. is_running_xct env c \<longrightarrow> fst (abort_xct env c) \<noteq> ERROR_CODE_XCT_RACE_ABORT) \<longrightarrow>
      (\<forall>e s'. TestTask_run env offset amount s = Some (Returned (e, s')) \<longrightarrow>
         e \<noteq> ERROR_CODE_XCT_RACE_ABORT))"
proof (intro conjI impI allI)
  assume "\<not> is_error (fst (try_transaction env offset amount s))"
  then show "TestTask_run env offset amount s
        = Some (Returned (kErrorCodeOk, snd (try_transaction env offset amount s)))"
    by (rule run_ok)
next
  let ?s1 = "snd (try_transaction env offset amount s)"
  assume a: "fst (try_transaction env offset amount s) = ERROR_CODE_XCT_RACE_ABORT
        \<and> is_running_xct env (fst ?s1) \<and> \<not> is_error (fst (abort_xct env (fst ?s1)))"
  obtain e s1 where t: "try_transaction env offset amount s = (e, s1)"
    by (cases "try_transaction env offset amount s")
  obtain e2 c2 where ab: "abort_xct env (fst s1) = (e2, c2)"
    by (cases "abort_xct env (fst s1)")
  from a t ab have "after_race env offset amount s = Some (snd (abort_xct env (fst ?s1)), snd ?s1)"
    by (simp add: after_race_def)
  then show "TestTask_run env offset amount s
        = TestTask_run env offset amount (snd (abort_xct env (fst ?s1)), snd ?s1)"
    by (rule run_retry)
next
  let ?s1 = "snd (try_transaction env offset amount s)"
  assume a: "fst (try_transaction env offset amount s) = ERROR_CODE_XCT_RACE_ABORT
        \<and> \<not> is_running_xct env (fst ?s1)"
  obtain e s1 where t: "try_transaction env offset amount s = (e, s1)"
    by (cases "try_transaction env offset amount s")
  from a t have "after_race env offset amount s = Some ?s1"
    by (simp add: after_race_def)
  then show "TestTask_run env offset amount s = TestTask_run env offset amount ?s1"
    by (rule run_retry)
next
  assume "is_error (fst (try_transaction env offset amount s))
        \<and> fst (try_transaction env offset amount s) \<noteq> ERROR_CODE_XCT_RACE_ABORT"
  then show "TestTask_run env offset amount s
        = Some (Fatal (fst (try_transaction env offset amount s)))"
    by (simp add: run_fatal)
next
  fix n s'
  assume a: "after_races env offset amount n s = Some s'
        \<and> \<not> is_error (fst (try_transaction env offset amount s'))"
  with run_retries [of env offset amount n s s']
  have "TestTask_run env offset amount s = TestTask_run env offset amount s'"
    by blast
  with a show "TestTask_run env offset amount s
        = Some (Returned (kErrorCodeOk, snd (try_transaction env offset amount s')))"
    by (simp add: run_ok)
next
  fix e s'
  assume "\<forall>c. is_running_xct env c \<longrightarrow> fst (abort_xct env c) \<noteq> ERROR_CODE_XCT_RACE_ABORT"
    and "TestTask_run env offset amount s = Some (Returned (e, s'))"
  with run_never_race_aux [of env offset amount s "Returned (e, s')"]
  show "e \<noteq> ERROR_CODE_XCT_RACE_ABORT" by blast
qed

lemma lingering_race:
  "try_transaction lingering_engine 3 64 (loaded_engine [Suc 0], 0)
     = (ERROR_CODE_XCT_RACE_ABORT,
        (\<lparr>table = initial_table, xct_active = True, write_set = [], races = [0]\<rparr>, 0))"
  by (simp add: try_transaction_def lingering_engine_def serial_engine_def serial_begin_xct_def
      serial_get_record_def serial_overwrite_record_def serial_precommit_xct_def
      loaded_engine_def initial_table_def is_error_def Let_def upt10)

lemma lingering_commit:
  "try_transaction lingering_engine 3 64 (loaded_engine [0], 0)
     = (kErrorCodeOk,
        (\<lparr>table = increment initial_table 3 64, xct_active = False, write_set = [], races = []\<rparr>, 0))"
  by (simp add: try_transaction_def lingering_engine_def serial_engine_def serial_begin_xct_def
      serial_get_record_def serial_overwrite_record_def serial_precommit_xct_def
      loaded_engine_def initial_table_def is_error_def Let_def upt10 apply_writes_def
      increment_def)

lemma lingering_abort:
  "abort_xct lingering_engine \<lparr>table = initial_table, xct_active = True, write_set = [], races = [0]\<rparr>
     = (kErrorCodeOk, loaded_engine [0])"
  by (simp add: lingering_engine_def serial_engine_def serial_abort_xct_def loaded_engine_def)

lemma out_of_range_error:
  "try_transaction serial_engine 11 64 (loaded_engine [], 0)
     = (OtherError 3, (\<lparr>table = initial_table, xct_active = True, write_set = [], races = []\<rparr>, 0))"
  by (simp add: try_transaction_def serial_engine_def serial_begin_xct_def
      serial_get_record_def loaded_engine_def initial_table_def is_error_def)

theorem retry_driver_witness:
  "TestTask_run lingering_engine 3 64 (loaded_engine [Suc 0], 0)
     = Some (Returned (kErrorCodeOk,
         (\<lparr>table = increment initial_table 3 64, xct_active = False, write_set = [],
           races = []\<rparr>, 0)))
   \<and> is_running_xct lingering_engine
        (fst (snd (try_transaction lingering_engine 3 64 (loaded_engine [Suc 0], 0))))
   \<and> TestTask_run serial_engine 11 64 (loaded_engine [], 0) = Some (Fatal (OtherError 3))"
proof -
  note t1 = retry_driver [of lingering_engine 3 64 "(loaded_engine [Suc 0], 0)"]
  note t0 = retry_driver [of lingering_engine 3 64 "(loaded_engine [0], 0)"]
  note t2 = retry_driver [of serial_engine 11 64 "(loaded_engine [], 0)"]
  let ?s1 = "snd (try_transaction lingering_engine 3 64 (loaded_engine [Suc 0], 0))"
  have race: "fst (try_transaction lingering_engine 3 64 (loaded_engine [Suc 0], 0))
      = ERROR_CODE_XCT_RACE_ABORT"
    unfolding lingering_race by simp
  have running: "is_running_xct lingering_engine (fst ?s1)"
    unfolding lingering_race by (simp add: lingering_engine_def serial_engine_def)
  have aborted: "\<not> is_error (fst (abort_xct lingering_engine (fst ?s1)))"
    unfolding lingering_race by (simp add: lingering_abort is_error_def)
  have next_state: "(snd (abort_xct lingering_engine (fst ?s1)), snd ?s1) = (loaded_engine [0], 0)"
    unfolding lingering_race by (simp add: lingering_abort)
  from t1 race running aborted
  have "TestTask_run lingering_engine 3 64 (loaded_engine [Suc 0], 0)
      = TestTask_run lingering_engine 3 64 (snd (abort_xct lingering_engine (fst ?s1)), snd ?s1)"
    by blast
  also have "\<dots> = TestTask_run lingering_engine 3 64 (loaded_engine [0], 0)"
    by (simp only: next_state)
  also have "\<dots> = Some (Returned (kErrorCodeOk,
         snd (try_transaction lingering_engine 3 64 (loaded_engine [0], 0))))"
  proof -
    have "\<not> is_error (fst (try_transaction lingering_engine 3 64 (loaded_engine [0], 0)))"
      unfolding lingering_commit by (simp add: is_error_def)
    with t0 show ?thesis by blast
  qed
  finally have a: "TestTask_run lingering_engine 3 64 (loaded_engine [Suc 0], 0)
     = Some (Returned (kErrorCodeOk,
         (\<lparr>table = increment initial_table 3 64, xct_active = False, write_set = [],
           races = []\<rparr>, 0)))"
    unfolding lingering_commit by simp
  have "is_error (fst (try_transaction serial_engine 11 64 (loaded_engine [], 0)))
      \<and> fst (try_transaction serial_engine 11 64 (loaded_engine [], 0)) \<noteq> ERROR_CODE_XCT_RACE_ABORT"
    unfolding out_of_range_error by (simp add: is_error_def)
  with t2 have "TestTask_run serial_engine 11 64 (loaded_engine [], 0)
      = Some (Fatal (fst (try_transaction serial_engine 11 64 (loaded_engine [], 0))))"
    by blast
  then have b: "TestTask_run serial_engine 11 64 (loaded_engine [], 0) = Some (Fatal (OtherError 3))"
    unfolding out_of_range_error by simp
  from a running b show ?thesis by blast
qed

lemma amount_for_bound: "amount_for assign_func r [0..<10] \<le> 940"
proof -
  have "sum_list (map (\<lambda>i. if assign_func i = r then i * 20 + 4 else 0) [0..<10])
      \<le> sum_list (map (\<lambda>i. i * 20 + 4) [0..<10])"
    by (rule sum_list_mono) simp
  also have "\<dots> = 940" by (simp add: upt10)
  finally show ?thesis by (simp add: amount_for_def)
qed

lemma expected_data_unat:
  "unat (expected_data assign_func r) = (\<Sum>i \<leftarrow> [0..<10]. if assign_func i = r then i * 20 + 4 else 0)"
proof -
  from amount_for_bound [of assign_func r]
  have "amount_for assign_func r [0..<10] < 2 ^ 64" by simp
  then have "unat (of_nat (amount_for assign_func r [0..<10]) :: 64 word)
      = amount_for assign_func r [0..<10]"
    by (simp add: unat_of_nat)
  then show ?thesis by (simp add: expected_data_amount amount_for_def)
qed

lemma light_range: "\<forall>i < 10. light_assign i < 10"
proof (intro allI impI)
  fix i :: nat assume "i < 10"
  moreover have "i div 2 \<le> i" by simp
  ultimately show "light_assign i < 10" by (simp add: light_assign_def)
qed

text \<open>
  C6. For every assignment of the ten tasks to the ten records and every order in which
  the ten increment transactions commit, whatever the numbers of race aborts before,
  \<open>run_test\<close> ends with no failed expectation and reads the same table: record \<open>r\<close>
  holds the sum of \<open>i * 20 + 4\<close> over the tasks \<open>i\<close> with \<open>assign_func i = r\<close>. With
  every task on record 0 that is 940 for record 0 and 0 for the others.
\<close>

theorem commit_order_independent:
  assumes "mset order = mset [0..<10]" and "\<forall>i < 10. assign_func i < 10"
  shows "run_test serial_engine assign_func order (started_engine ks)
           = Some (Returned (expected_table assign_func, 0))
    \<and> length (expected_table assign_func) = 10
    \<and> (\<forall>r < 10. unat (payload_data (expected_table assign_func ! r))
          = (\<Sum>i \<leftarrow> [0..<10]. if assign_func i = r then i * 20 + 4 else 0))
    \<and> (\<forall>order' ks'. mset order' = mset order \<longrightarrow>
          run_test serial_engine assign_func order' (started_engine ks')
            = run_test serial_engine assign_func order (started_engine ks))
    \<and> run_test serial_engine extreme_assign order (started_engine ks)
        = Some (Returned (extreme_table, 0))
    \<and> map payload_data extreme_table = [940, 0, 0, 0, 0, 0, 0, 0, 0, 0]"
proof (intro conjI allI impI)
  show "run_test serial_engine assign_func order (started_engine ks)
           = Some (Returned (expected_table assign_func, 0))"
    using assms by (rule run_test_serial)
  show "length (expected_table assign_func) = 10"
    by (simp add: expected_table_def)
  show "map payload_data extreme_table = [940, 0, 0, 0, 0, 0, 0, 0, 0, 0]"
    by (simp add: extreme_table_def)
  have "\<forall>i < 10. extreme_assign i < 10" by (simp add: extreme_assign_def)
  from run_test_serial [OF assms(1) this]
  show "run_test serial_engine extreme_assign order (started_engine ks)
        = Some (Returned (extreme_table, 0))"
    by (simp add: extreme_expected)
next
  fix r :: nat assume "r < 10"
  then show "unat (payload_data (expected_table assign_func ! r))
          = (\<Sum>i \<leftarrow> [0..<10]. if assign_func i = r then i * 20 + 4 else 0)"
    by (simp add: expected_table_def expected_data_unat)
next
  fix order' ks' assume "mset order' = mset order"
  with assms have "mset order' = mset [0..<10]" by simp
  from run_test_serial [OF this assms(2)] run_test_serial [OF assms]
  show "run_test serial_engine assign_func order' (started_engine ks')
            = run_test serial_engine assign_func order (started_engine ks)"
    by simp
qed

lemma some_order_perm: "mset some_order = mset [0..<10]"
  by (simp add: some_order_def upt10)

theorem commit_order_independent_witness:
  "mset some_order = mset [0..<10] \<and> extreme_assign 9 < 10
   \<and> run_test serial_engine extreme_assign some_order (started_engine [2, 0, 1])
       = Some (Returned (extreme_table, 0))
   \<and> run_test serial_engine extreme_assign [0..<10] (started_engine [])
       = run_test serial_engine extreme_assign some_order (started_engine [2, 0, 1])"
proof -
  have r: "\<forall>i < 10. extreme_assign i < 10" by (simp add: extreme_assign_def)
  note t = commit_order_independent [OF some_order_perm r, of "[2, 0, 1]"]
  from t have a: "run_test serial_engine extreme_assign some_order (started_engine [2, 0, 1])
       = Some (Returned (extreme_table, 0))"
    by blast
  from t have "\<forall>order' ks'. mset order' = mset some_order \<longrightarrow>
          run_test serial_engine extreme_assign order' (started_engine ks')
            = run_test serial_engine extreme_assign some_order (started_engine [2, 0, 1])"
    by blast
  with some_order_perm
  have b: "run_test serial_engine extreme_assign [0..<10] (started_engine [])
       = run_test serial_engine extreme_assign some_order (started_engine [2, 0, 1])"
    by metis
  have "extreme_assign 9 < 10" by (simp add: extreme_assign_def)
  with some_order_perm a b show ?thesis by blast
qed

text \<open>
  C7, as amended. In the LightConflict scenario, in every commit order, the records end
  at 28, 108, 188, 268, 348 and five times 0.
\<close>

theorem light_conflict_values:
  assumes "mset order = mset [0..<10]"
  shows "run_test serial_engine light_assign order (started_engine ks)
           = Some (Returned (light_table, 0))
    \<and> map payload_data light_table = [28, 108, 188, 268, 348, 0, 0, 0, 0, 0]"
proof -
  from run_test_serial [OF assms light_range] show ?thesis
    by (simp add: light_expected light_table_def)
qed

theorem light_conflict_values_witness:
  "mset some_order = mset [0..<10]
   \<and> run_test serial_engine light_assign some_order (started_engine [2, 0, 1])
       = Some (Returned (light_table, 0))"
  using light_conflict_values [OF some_order_perm, of "[2, 0, 1]"] some_order_perm by simp

text \<open>
  The values 112, 192, 272 and 352 are not what records 1 to 4 hold: with the tasks
  committing in the order of their numbers they hold 108, 188, 268 and 348.
\<close>

theorem light_conflict_counterexample:
  "run_test serial_engine light_assign [0, 1, 2, 3, 4, 5, 6, 7, 8, 9] (started_engine [])
     = Some (Returned (light_table, 0))
   \<and> payload_data (light_table ! 1) = 108 \<and> payload_data (light_table ! 1) \<noteq> 112
   \<and> payload_data (light_table ! 2) = 188 \<and> payload_data (light_table ! 2) \<noteq> 192
   \<and> payload_data (light_table ! 3) = 268 \<and> payload_data (light_table ! 3) \<noteq> 272
   \<and> payload_data (light_table ! 4) = 348 \<and> payload_data (light_table ! 4) \<noteq> 352"
proof -
  have "mset [0, 1, 2, 3, 4, 5, 6, 7, 8, 9] = mset [0..<10]"
    by (simp add: upt10)
  from run_test_serial [OF this light_range]
  have "run_test serial_engine light_assign [0, 1, 2, 3, 4, 5, 6, 7, 8, 9] (started_engine [])
     = Some (Returned (expected_table light_assign, 0))" .
  then show ?thesis by (simp add: light_expected) (simp add: light_table_def)
qed

lemma expected_table_ids: "r < 10 \<Longrightarrow> payload_id (expected_table assign_func ! r) = of_nat r"
  by (simp add: expected_table_def)

lemma serial_run_frame:
  assumes "quiet c" and "length (table c) = 10" and "ids_in_place (table c)"
    and "unat offset < 10"
  shows "\<exists>c'. TestTask_run serial_engine offset amount (c, f)
                 = Some (Returned (kErrorCodeOk, (c', f)))
           \<and> length (table c') = 10
           \<and> (\<forall>r < 10. payload_id (table c' ! r) = payload_id (table c ! r))
           \<and> (\<forall>r < 10. r \<noteq> unat offset \<longrightarrow> table c' ! r = table c ! r)
           \<and> payload_data (table c' ! unat offset)
               = payload_data (table c ! unat offset) + amount"
proof -
  from assms have "payload_id (table c ! unat offset) = of_nat (unat offset)"
    by (simp add: ids_in_place_def)
  then have id: "payload_id (table c ! unat offset) = offset" by simp
  let ?c = "c\<lparr>table := increment (table c) (unat offset) amount, races := tl (races c)\<rparr>"
  from assms id have "TestTask_run serial_engine offset amount (c, f)
      = Some (Returned (kErrorCodeOk, (?c, f)))"
    by (intro serial_run) simp_all
  moreover from assms have "length (table ?c) = 10" by simp
  moreover from assms have "\<forall>r < 10. payload_id (table ?c ! r) = payload_id (table c ! r)"
    by (simp add: increment_nth)
  moreover from assms have "\<forall>r < 10. r \<noteq> unat offset \<longrightarrow> table ?c ! r = table c ! r"
    by (simp add: increment_nth)
  moreover from assms have "payload_data (table ?c ! unat offset)
               = payload_data (table c ! unat offset) + amount"
    by (simp add: increment_nth)
  ultimately show ?thesis by blast
qed

text \<open>
  C8. \<open>InitTask\<close> leaves record \<open>i\<close> with \<open>id_ = i\<close>; an increment transaction on a
  table with the ids in place changes no \<open>id_\<close> and no record but its own, to whose
  \<open>data_\<close> it adds its amount; and the payloads \<open>run_test\<close> reads at the end have
  \<open>id_ = i\<close> in every scenario.
\<close>

theorem ids_unchanged:
  assumes "mset order = mset [0..<10]" and "\<forall>i < 10. assign_func i < 10"
  shows "(\<exists>c1. InitTask_run serial_engine (started_engine ks) = (kErrorCodeOk, c1)
            \<and> length (table c1) = 10
            \<and> (\<forall>i < 10. payload_id (table c1 ! i) = of_nat i \<and> payload_data (table c1 ! i) = 0))
    \<and> (\<forall>c f offset amount.
          quiet c \<and> length (table c) = 10 \<and> ids_in_place (table c) \<and> unat offset < 10 \<longrightarrow>
          (\<exists>c'. TestTask_run serial_engine offset amount (c, f)
                   = Some (Returned (kErrorCodeOk, (c', f)))
             \<and> length (table c') = 10
             \<and> (\<forall>r < 10. payload_id (table c' ! r) = payload_id (table c ! r))
             \<and> (\<forall>r < 10. r \<noteq> unat offset \<longrightarrow> table c' ! r = table c ! r)
             \<and> payload_data (table c' ! unat offset)
                 = payload_data (table c ! unat offset) + amount))
    \<and> (\<exists>payloads. run_test serial_engine assign_func order (started_engine ks)
                       = Some (Returned (payloads, 0))
            \<and> length payloads = 10
            \<and> (\<forall>i < 10. payload_id (payloads ! i) = of_nat i))"
proof (intro conjI)
  show "\<exists>c1. InitTask_run serial_engine (started_engine ks) = (kErrorCodeOk, c1)
            \<and> length (table c1) = 10
            \<and> (\<forall>i < 10. payload_id (table c1 ! i) = of_nat i \<and> payload_data (table c1 ! i) = 0)"
    by (simp add: serial_InitTask_run initial_table_def)
  show "\<forall>c f offset amount.
          quiet c \<and> length (table c) = 10 \<and> ids_in_place (table c) \<and> unat offset < 10 \<longrightarrow>
          (\<exists>c'. TestTask_run serial_engine offset amount (c, f)
                   = Some (Returned (kErrorCodeOk, (c', f)))
             \<and> length (table c') = 10
             \<and> (\<forall>r < 10. payload_id (table c' ! r) = payload_id (table c ! r))
             \<and> (\<forall>r < 10. r \<noteq> unat offset \<longrightarrow> table c' ! r = table c ! r)
             \<and> payload_data (table c' ! unat offset)
                 = payload_data (table c ! unat offset) + amount)"
    using serial_run_frame by blast
  from run_test_serial [OF assms]
  show "\<exists>payloads. run_test serial_engine assign_func order (started_engine ks)
                       = Some (Returned (payloads, 0))
            \<and> length payloads = 10
            \<and> (\<forall>i < 10. payload_id (payloads ! i) = of_nat i)"
    by (simp add: expected_table_ids) (simp add: expected_table_def)
qed

lemma loaded_engine_ok:
  "quiet (loaded_engine ks) \<and> length (table (loaded_engine ks)) = 10
   \<and> ids_in_place (table (loaded_engine ks))"
  by (simp add: quiet_def loaded_engine_def initial_table_def ids_in_place_def)

theorem ids_unchanged_witness:
  "light_assign 9 < 10
   \<and> quiet (loaded_engine [1]) \<and> length (table (loaded_engine [1])) = 10
   \<and> ids_in_place (table (loaded_engine [1])) \<and> unat (3 :: 64 word) < 10
   \<and> (\<exists>c'. TestTask_run serial_engine 3 64 (loaded_engine [1], 0)
               = Some (Returned (kErrorCodeOk, (c', 0)))
         \<and> payload_id (table c' ! 3) = 3 \<and> payload_data (table c' ! 3) = 64)
   \<and> (\<exists>payloads. run_test serial_engine light_assign [0..<10] (started_engine [])
                     = Some (Returned (payloads, 0))
         \<and> payload_id (payloads ! 9) = 9)"
proof -
  have p: "mset [0..<10] = mset [0..<10]" by simp
  have r: "\<forall>i < 10. light_assign i < 10"
  proof (intro allI impI)
    fix i :: nat assume "i < 10"
    moreover have "i div 2 \<le> i" by simp
    ultimately show "light_assign i < 10" by (simp add: light_assign_def)
  qed
  note t = ids_unchanged [OF p r, of "[]"]
  have u: "unat (3 :: 64 word) < 10" by simp
  from t loaded_engine_ok [of "[1]"] u
  obtain c' where c': "TestTask_run serial_engine 3 64 (loaded_engine [1], 0)
                   = Some (Returned (kErrorCodeOk, (c', 0)))"
    "\<forall>r < 10. payload_id (table c' ! r) = payload_id (table (loaded_engine [1]) ! r)"
    "payload_data (table c' ! unat (3 :: 64 word))
        = payload_data (table (loaded_engine [1]) ! unat (3 :: 64 word)) + 64"
    by blast
  have l: "table (loaded_engine [1]) ! 3 = \<lparr>payload_id = 3, payload_data = 0\<rparr>"
    by (simp add: loaded_engine_def initial_table_def)
  from c'(2) l have "payload_id (table c' ! 3) = 3" by simp
  moreover from c'(3) l have "payload_data (table c' ! 3) = 64" by simp
  moreover from t obtain payloads where
    "run_test serial_engine light_assign [0..<10] (started_engine []) = Some (Returned (payloads, 0))"
    "\<forall>i < 10. payload_id (payloads ! i) = of_nat i"
    by blast
  moreover from this have "payload_id (payloads ! 9) = 9" by simp
  moreover have "light_assign 9 < 10" by (simp add: light_assign_def)
  ultimately show ?thesis using c'(1) loaded_engine_ok [of "[1]"] u by blast
qed

section \<open>Properties of the trade order\<close>

lemma scan_trade_types_trace:
  assumes "scan_trade_types env lit is tr s = (e, found, tr', s')"
  shows "\<exists>gets. tr' = tr @ gets \<and> (\<forall>c \<in> set gets. is_get c)
          \<and> (e = kErrorCodeOk \<longrightarrow> (\<forall>c \<in> set gets. snd c = kErrorCodeOk))
          \<and> (e \<noteq> kErrorCodeOk \<longrightarrow>
                gets \<noteq> [] \<and> snd (last gets) = e
              \<and> (\<forall>c \<in> set (butlast gets). snd c = kErrorCodeOk))"
  using assms
proof (induction "is" arbitrary: tr s)
  case Nil
  then show ?case by simp
next
  case (Cons i rest)
  obtain e1 r1 s1 where g: "trade_types_get_record env s i = (e1, r1, s1)"
    by (cases "trade_types_get_record env s i") auto
  let ?tr = "tr @ [(GetTradeType i, e1)]"
  consider (err) "e1 \<noteq> kErrorCodeOk"
    | (hit) "e1 = kErrorCodeOk" "memcmp_equal (tt_id r1) lit"
    | (miss) "e1 = kErrorCodeOk" "\<not> memcmp_equal (tt_id r1) lit"
    by blast
  then show ?case
  proof cases
    case err
    with Cons.prems g have "tr' = ?tr" "e = e1" by auto
    with err show ?thesis by (intro exI [of _ "[(GetTradeType i, e1)]"]) (simp add: is_get_def)
  next
    case hit
    with Cons.prems g have "tr' = ?tr" "e = kErrorCodeOk" by auto
    with hit show ?thesis by (intro exI [of _ "[(GetTradeType i, e1)]"]) (simp add: is_get_def)
  next
    case miss
    with Cons.prems g have "scan_trade_types env lit rest ?tr s1 = (e, found, tr', s')"
      by simp
    from Cons.IH [OF this] obtain gets where gets: "tr' = ?tr @ gets"
      "\<forall>c \<in> set gets. is_get c"
      "e = kErrorCodeOk \<longrightarrow> (\<forall>c \<in> set gets. snd c = kErrorCodeOk)"
      "e \<noteq> kErrorCodeOk \<longrightarrow> gets \<noteq> [] \<and> snd (last gets) = e
              \<and> (\<forall>c \<in> set (butlast gets). snd c = kErrorCodeOk)"
      by blast
    show ?thesis
    proof (intro exI [of _ "(GetTradeType i, e1) # gets"] conjI impI)
      show "tr' = tr @ (GetTradeType i, e1) # gets" using gets(1) by simp
      show "\<forall>c \<in> set ((GetTradeType i, e1) # gets). is_get c"
        using gets(2) by (simp add: is_get_def)
      show "\<forall>c \<in> set ((GetTradeType i, e1) # gets). snd c = kErrorCodeOk" if "e = kErrorCodeOk"
        using gets(3) that miss by simp
      show "(GetTradeType i, e1) # gets \<noteq> []" by simp
      show "snd (last ((GetTradeType i, e1) # gets)) = e" if "e \<noteq> kErrorCodeOk"
        using gets(4) that by simp
      show "\<forall>c \<in> set (butlast ((GetTradeType i, e1) # gets)). snd c = kErrorCodeOk"
        if "e \<noteq> kErrorCodeOk"
        using gets(4) that miss by simp
    qed
  qed
qed

lemma gets_no_inserts:
  "\<forall>c \<in> set gets. is_get c \<Longrightarrow>
     filter is_insert_trade gets = [] \<and> filter is_insert_index gets = []"
  by (induction gets)
     (auto simp: is_get_def is_insert_trade_def is_insert_index_def split: storage_call.splits)


lemma do_trade_order_cases:
  assumes "do_trade_order env s = Returned (e, tr, s')"
  defines "tid \<equiv> get_artificial_new_trade_id env"
    and "now \<equiv> get_articifical_current_dts env"
  defines "record \<equiv> (uninitialized_record env)\<lparr>t_dts := now, t_id := tid\<rparr>"
  defines "key \<equiv> to_symb_dts_key env (t_symb_id record) now (worker_id env)"
  shows "\<exists>gets. (\<forall>c \<in> set gets. is_get c)
          \<and> ((e \<noteq> kErrorCodeOk \<and> tr = gets \<and> gets \<noteq> [] \<and> snd (last gets) = e
                \<and> (\<forall>c \<in> set (butlast gets). snd c = kErrorCodeOk))
            \<or> (e \<noteq> kErrorCodeOk \<and> tr = gets @ [(InsertTrade tid record, e)]
                \<and> (\<forall>c \<in> set gets. snd c = kErrorCodeOk))
            \<or> (e \<noteq> kErrorCodeOk
                \<and> tr = gets @ [(InsertTrade tid record, kErrorCodeOk),
                               (InsertTradeIndex key tid, e)]
                \<and> (\<forall>c \<in> set gets. snd c = kErrorCodeOk))
            \<or> (e = kErrorCodeOk
                \<and> tr = gets @ [(InsertTrade tid record, kErrorCodeOk),
                               (InsertTradeIndex key tid, kErrorCodeOk)]
                \<and> (\<forall>c \<in> set gets. snd c = kErrorCodeOk)))"
proof -
  from assms(1) have k: "kCount env \<noteq> 0"
    by (auto simp: do_trade_order_def split: if_splits)
  let ?lit = "choose_trade_type_id env (unat (next_uint32 env) mod kCount env)"
  obtain e1 found tr1 s1 where sc:
    "scan_trade_types env ?lit [0..<kCount env] [] s = (e1, found, tr1, s1)"
    by (cases "scan_trade_types env ?lit [0..<kCount env] [] s") auto
  from scan_trade_types_trace [OF sc] obtain gets where gets: "tr1 = gets"
    "\<forall>c \<in> set gets. is_get c"
    "e1 = kErrorCodeOk \<longrightarrow> (\<forall>c \<in> set gets. snd c = kErrorCodeOk)"
    "e1 \<noteq> kErrorCodeOk \<longrightarrow> gets \<noteq> [] \<and> snd (last gets) = e1
              \<and> (\<forall>c \<in> set (butlast gets). snd c = kErrorCodeOk)"
    by auto
  obtain e2 s2 where i1: "trades_insert_record env s1 tid record = (e2, s2)"
    by (cases "trades_insert_record env s1 tid record")
  obtain e3 s3 where i2: "trades_index_insert_record_normalized env s2 key tid = (e3, s3)"
    by (cases "trades_index_insert_record_normalized env s2 key tid")
  from assms(1) k sc i1 i2 gets(1)
  consider "e1 \<noteq> kErrorCodeOk" "e = e1" "tr = gets"
    | "e1 = kErrorCodeOk" "e2 \<noteq> kErrorCodeOk" "e = e2" "tr = gets @ [(InsertTrade tid record, e2)]"
    | "e1 = kErrorCodeOk" "e2 = kErrorCodeOk" "e3 \<noteq> kErrorCodeOk" "e = e3"
      "tr = gets @ [(InsertTrade tid record, e2), (InsertTradeIndex key tid, e3)]"
    | "e1 = kErrorCodeOk" "e2 = kErrorCodeOk" "e3 = kErrorCodeOk" "e = kErrorCodeOk"
      "tr = gets @ [(InsertTrade tid record, e2), (InsertTradeIndex key tid, e3)]"
    by (auto simp: do_trade_order_def Let_def tid_def now_def record_def key_def
        split: if_splits)
  then show ?thesis
  proof cases
    case 1 with gets show ?thesis by blast
  next
    case 2 with gets show ?thesis by blast
  next
    case 3 with gets show ?thesis by blast
  next
    case 4 with gets show ?thesis by blast
  qed
qed


lemma do_trade_order_returns:
  assumes "0 < kCount env" and "\<not> tpce_assert_nd env"
  shows "\<exists>e tr s'. do_trade_order env s = Returned (e, tr, s')"
  using assms
  by (auto simp: do_trade_order_def Let_def split: prod.splits)

text \<open>
  C9. A run of \<open>do_trade_order\<close> that returns calls only the three storages, and begins
  or commits no transaction itself. When it returns ok its calls are the lookups in
  TRADE_TYPE, all ok, then one insert into TRADE of the record carrying the new trade id
  and the current dts under that id, then one insert into the secondary index of the
  trade id under the key composed of the record's symbol id, the dts and the worker id.
  It returns ok exactly when every call it made returned ok and both inserts were made.
  When it returns an error, that is the code of its last call, the only one that failed.
  It makes each insert at most once.
\<close>

theorem do_trade_order_inserts:
  "(\<forall>e tr s'. do_trade_order env s = Returned (e, tr, s') \<longrightarrow>
      (let tid = get_artificial_new_trade_id env;
           now = get_articifical_current_dts env;
           record = (uninitialized_record env)\<lparr>t_dts := now, t_id := tid\<rparr>;
           key = to_symb_dts_key env (t_symb_id record) now (worker_id env)
       in (e = kErrorCodeOk \<longrightarrow>
             (\<exists>gets. tr = gets @ [(InsertTrade tid record, kErrorCodeOk),
                                  (InsertTradeIndex key tid, kErrorCodeOk)]
                \<and> (\<forall>c \<in> set gets. is_get c \<and> snd c = kErrorCodeOk)))
        \<and> (e = kErrorCodeOk \<longleftrightarrow>
             (\<forall>c \<in> set tr. snd c = kErrorCodeOk)
           \<and> length (filter is_insert_trade tr) = 1
           \<and> length (filter is_insert_index tr) = 1)
        \<and> (e \<noteq> kErrorCodeOk \<longrightarrow>
             tr \<noteq> [] \<and> snd (last tr) = e
           \<and> (\<forall>c \<in> set (butlast tr). snd c = kErrorCodeOk))
        \<and> length (filter is_insert_trade tr) \<le> 1
        \<and> length (filter is_insert_index tr) \<le> 1
        \<and> t_id record = tid \<and> t_dts record = now))
   \<and> (0 < kCount env \<and> \<not> tpce_assert_nd env \<longrightarrow>
        (\<exists>e tr s'. do_trade_order env s = Returned (e, tr, s')))"
proof (intro conjI allI impI)
  assume "0 < kCount env \<and> \<not> tpce_assert_nd env"
  then show "\<exists>e tr s'. do_trade_order env s = Returned (e, tr, s')"
    by (simp add: do_trade_order_returns)
next
  fix e tr s'
  assume r: "do_trade_order env s = Returned (e, tr, s')"
  define tid where "tid = get_artificial_new_trade_id env"
  define now where "now = get_articifical_current_dts env"
  define trade where "trade = (uninitialized_record env)\<lparr>t_dts := now, t_id := tid\<rparr>"
  define key where "key = to_symb_dts_key env (t_symb_id trade) now (worker_id env)"
  from do_trade_order_cases [OF r] obtain gets where g: "\<forall>c \<in> set gets. is_get c"
    and c: "(e \<noteq> kErrorCodeOk \<and> tr = gets \<and> gets \<noteq> [] \<and> snd (last gets) = e
                \<and> (\<forall>c \<in> set (butlast gets). snd c = kErrorCodeOk))
            \<or> (e \<noteq> kErrorCodeOk \<and> tr = gets @ [(InsertTrade tid trade, e)]
                \<and> (\<forall>c \<in> set gets. snd c = kErrorCodeOk))
            \<or> (e \<noteq> kErrorCodeOk
                \<and> tr = gets @ [(InsertTrade tid trade, kErrorCodeOk),
                               (InsertTradeIndex key tid, e)]
                \<and> (\<forall>c \<in> set gets. snd c = kErrorCodeOk))
            \<or> (e = kErrorCodeOk
                \<and> tr = gets @ [(InsertTrade tid trade, kErrorCodeOk),
                               (InsertTradeIndex key tid, kErrorCodeOk)]
                \<and> (\<forall>c \<in> set gets. snd c = kErrorCodeOk))"
    unfolding tid_def now_def trade_def key_def by blast
  note n = gets_no_inserts [OF g]
  have it: "is_insert_trade (InsertTrade tid trade, x)" "\<not> is_insert_index (InsertTrade tid trade, x)"
    "is_insert_index (InsertTradeIndex key tid, x)" "\<not> is_insert_trade (InsertTradeIndex key tid, x)"
    for x by (simp_all add: is_insert_trade_def is_insert_index_def)
  have main: "(e = kErrorCodeOk \<longrightarrow>
             (\<exists>gets. tr = gets @ [(InsertTrade tid trade, kErrorCodeOk),
                                  (InsertTradeIndex key tid, kErrorCodeOk)]
                \<and> (\<forall>c \<in> set gets. is_get c \<and> snd c = kErrorCodeOk)))
        \<and> (e = kErrorCodeOk \<longleftrightarrow>
             (\<forall>c \<in> set tr. snd c = kErrorCodeOk)
           \<and> length (filter is_insert_trade tr) = 1
           \<and> length (filter is_insert_index tr) = 1)
        \<and> (e \<noteq> kErrorCodeOk \<longrightarrow>
             tr \<noteq> [] \<and> snd (last tr) = e
           \<and> (\<forall>c \<in> set (butlast tr). snd c = kErrorCodeOk))
        \<and> length (filter is_insert_trade tr) \<le> 1
        \<and> length (filter is_insert_index tr) \<le> 1
        \<and> t_id trade = tid \<and> t_dts trade = now"
    using c
  proof (elim disjE conjE)
    assume a: "e \<noteq> kErrorCodeOk" "tr = gets" "gets \<noteq> []" "snd (last gets) = e"
      "\<forall>c \<in> set (butlast gets). snd c = kErrorCodeOk"
    with n show ?thesis by (simp add: trade_def)
  next
    assume a: "e \<noteq> kErrorCodeOk" "tr = gets @ [(InsertTrade tid trade, e)]"
      "\<forall>c \<in> set gets. snd c = kErrorCodeOk"
    with n it show ?thesis by (simp add: trade_def)
  next
    assume a: "e \<noteq> kErrorCodeOk"
      "tr = gets @ [(InsertTrade tid trade, kErrorCodeOk), (InsertTradeIndex key tid, e)]"
      "\<forall>c \<in> set gets. snd c = kErrorCodeOk"
    with n it show ?thesis by (auto simp: trade_def butlast_append)
  next
    assume a: "e = kErrorCodeOk"
      "tr = gets @ [(InsertTrade tid trade, kErrorCodeOk), (InsertTradeIndex key tid, kErrorCodeOk)]"
      "\<forall>c \<in> set gets. snd c = kErrorCodeOk"
    with n it g show ?thesis by (auto simp: trade_def)
  qed
  then show "let tid = get_artificial_new_trade_id env;
           now = get_articifical_current_dts env;
           record = (uninitialized_record env)\<lparr>t_dts := now, t_id := tid\<rparr>;
           key = to_symb_dts_key env (t_symb_id record) now (worker_id env)
       in (e = kErrorCodeOk \<longrightarrow>
             (\<exists>gets. tr = gets @ [(InsertTrade tid record, kErrorCodeOk),
                                  (InsertTradeIndex key tid, kErrorCodeOk)]
                \<and> (\<forall>c \<in> set gets. is_get c \<and> snd c = kErrorCodeOk)))
        \<and> (e = kErrorCodeOk \<longleftrightarrow>
             (\<forall>c \<in> set tr. snd c = kErrorCodeOk)
           \<and> length (filter is_insert_trade tr) = 1
           \<and> length (filter is_insert_index tr) = 1)
        \<and> (e \<noteq> kErrorCodeOk \<longrightarrow>
             tr \<noteq> [] \<and> snd (last tr) = e
           \<and> (\<forall>c \<in> set (butlast tr). snd c = kErrorCodeOk))
        \<and> length (filter is_insert_trade tr) \<le> 1
        \<and> length (filter is_insert_index tr) \<le> 1
        \<and> t_id record = tid \<and> t_dts record = now"
    unfolding Let_def tid_def now_def trade_def key_def .
qed


lemma trade_order_ok_run:
  "do_trade_order (store_env 7 12 501) loaded_store
     = Returned (kErrorCodeOk,
         [(GetTradeType 0, kErrorCodeOk), (GetTradeType 1, kErrorCodeOk),
          (GetTradeType 2, kErrorCodeOk),
          (InsertTrade 501 \<lparr>t_dts = 12, t_id = 501, t_symb_id = 77\<rparr>, kErrorCodeOk),
          (InsertTradeIndex 7701206 501, kErrorCodeOk)],
         loaded_store\<lparr>trades := trades loaded_store
                         @ [(501, \<lparr>t_dts = 12, t_id = 501, t_symb_id = 77\<rparr>)],
                       trades_secondary_symb_dts := [(7701206, 501)]\<rparr>)"
  by (simp add: do_trade_order_def store_env_def loaded_store_def choose_trade_type_id_def
      memcmp_equal_def Let_def upt_rec)

lemma trade_order_duplicate_run:
  "do_trade_order (store_env 7 12 500) loaded_store
     = Returned (OtherError 9,
         [(GetTradeType 0, kErrorCodeOk), (GetTradeType 1, kErrorCodeOk),
          (GetTradeType 2, kErrorCodeOk),
          (InsertTrade 500 \<lparr>t_dts = 12, t_id = 500, t_symb_id = 77\<rparr>, OtherError 9)],
         loaded_store)"
  by (simp add: do_trade_order_def store_env_def loaded_store_def choose_trade_type_id_def
      memcmp_equal_def Let_def upt_rec)

theorem do_trade_order_inserts_witness:
  "do_trade_order (store_env 7 12 501) loaded_store
     = Returned (kErrorCodeOk,
         [(GetTradeType 0, kErrorCodeOk), (GetTradeType 1, kErrorCodeOk),
          (GetTradeType 2, kErrorCodeOk),
          (InsertTrade 501 \<lparr>t_dts = 12, t_id = 501, t_symb_id = 77\<rparr>, kErrorCodeOk),
          (InsertTradeIndex 7701206 501, kErrorCodeOk)],
         loaded_store\<lparr>trades := trades loaded_store
                         @ [(501, \<lparr>t_dts = 12, t_id = 501, t_symb_id = 77\<rparr>)],
                       trades_secondary_symb_dts := [(7701206, 501)]\<rparr>)
   \<and> length (filter is_insert_trade
         [(GetTradeType 0, kErrorCodeOk), (GetTradeType 1, kErrorCodeOk),
          (GetTradeType 2, kErrorCodeOk),
          (InsertTrade 501 \<lparr>t_dts = 12, t_id = 501, t_symb_id = 77\<rparr>, kErrorCodeOk),
          (InsertTradeIndex 7701206 501, kErrorCodeOk)]) = 1
   \<and> do_trade_order (store_env 7 12 500) loaded_store
     = Returned (OtherError 9,
         [(GetTradeType 0, kErrorCodeOk), (GetTradeType 1, kErrorCodeOk),
          (GetTradeType 2, kErrorCodeOk),
          (InsertTrade 500 \<lparr>t_dts = 12, t_id = 500, t_symb_id = 77\<rparr>, OtherError 9)],
         loaded_store)
   \<and> snd (last
         [(GetTradeType 0, kErrorCodeOk), (GetTradeType 1, kErrorCodeOk),
          (GetTradeType 2, kErrorCodeOk),
          (InsertTrade 500 \<lparr>t_dts = 12, t_id = 500, t_symb_id = 77\<rparr>, OtherError 9)])
       = OtherError 9"
proof -
  note t1 = do_trade_order_inserts [of "store_env 7 12 501" loaded_store]
  note t2 = do_trade_order_inserts [of "store_env 7 12 500" loaded_store]
  from t1 trade_order_ok_run
  have a: "length (filter is_insert_trade
         [(GetTradeType 0, kErrorCodeOk), (GetTradeType 1, kErrorCodeOk),
          (GetTradeType 2, kErrorCodeOk),
          (InsertTrade 501 \<lparr>t_dts = 12, t_id = 501, t_symb_id = 77\<rparr>, kErrorCodeOk),
          (InsertTradeIndex 7701206 501, kErrorCodeOk)]) = 1"
    unfolding Let_def by blast
  from t2 trade_order_duplicate_run
  have b: "snd (last
         [(GetTradeType 0, kErrorCodeOk), (GetTradeType 1, kErrorCodeOk),
          (GetTradeType 2, kErrorCodeOk),
          (InsertTrade 500 \<lparr>t_dts = 12, t_id = 500, t_symb_id = 77\<rparr>, OtherError 9)])
       = OtherError 9"
    unfolding Let_def by blast
  from a b trade_order_ok_run trade_order_duplicate_run show ?thesis by blast
qed

end
